theory Spec2Isabelle
  imports Main
begin

section \<open>Data model\<close>

text \<open>
  The interface \<^verbatim>\<open>ManagedProcessConfig\<close> of the server. TypeScript's types are erased
  at run time and the handlers also pass \<^verbatim>\<open>startPm2Process\<close> objects that are not
  registry entries (see \<open>lookup\<close> below), so every property, \<^verbatim>\<open>name\<close> and
  \<^verbatim>\<open>script\<close> included, is read as a value that may be \<^verbatim>\<open>undefined\<close> (\<open>None\<close>).
  \<^verbatim>\<open>instances\<close> is a JavaScript number; the model covers the integers.
  \<^verbatim>\<open>logOffset\<close> is only ever assigned a file size or an offset plus a read size.
\<close>

record ManagedProcessConfig =
  name :: "string option"
  script :: "string option"
  cwd :: "string option"
  args :: "string list option"
  env :: "(string \<times> string) list option"
  interpreter :: "string option"
  instances :: "int option"
  watch :: "bool option"
  autorestart :: "bool option"
  logOffset :: "nat option"

text \<open>\<^verbatim>\<open>DevServerState.managedProcesses\<close>: the own properties of the registry object.\<close>

type_synonym registry = "string \<rightharpoonup> ManagedProcessConfig"

text \<open>One element of the array printed by \<^verbatim>\<open>pm2 jlist\<close>: \<^verbatim>\<open>p.name\<close> and
  \<^verbatim>\<open>p.pm2_env?.status\<close>.\<close>

record pm2_proc =
  pname :: string
  pstatus :: "string option"

text \<open>A call of \<^verbatim>\<open>execAsync(command, execOptions)\<close>: the command string and the
  \<^verbatim>\<open>cwd\<close> and \<^verbatim>\<open>env\<close> options given by the caller of \<^verbatim>\<open>runPm2\<close>.\<close>

record exec_call =
  command :: string
  exec_cwd :: "string option"
  exec_env :: "(string \<times> string) list"

datatype event = Pm2 exec_call | WriteState

datatype error = NotRegistered string | ExecFailed string | WriteFailed

text \<open>
  Everything outside the server is a parameter: the state \<open>'p\<close> of the supervisor and
  of the file system, and the functions through which the server reaches it.
  \<^item> \<open>exec\<close>: \<^verbatim>\<open>child_process.exec\<close>; \<open>None\<close> when the promise rejects;
  \<^item> \<open>json_procs\<close>: \<^verbatim>\<open>JSON.parse\<close> of the output of \<^verbatim>\<open>pm2 jlist\<close>; \<open>None\<close> when it throws
    or the value is not an array;
  \<^item> \<open>wait\<close>: the passing of the given number of milliseconds (\<^verbatim>\<open>setTimeout\<close>);
  \<^item> \<open>read_file\<close>: the bytes of the file at a path, \<open>None\<close> when it cannot be opened;
  \<^item> \<open>writable\<close>: whether \<^verbatim>\<open>fs.writeFile\<close> of the state file succeeds;
  \<^item> \<open>linkify_find\<close>: the \<^verbatim>\<open>href\<close>s of \<^verbatim>\<open>linkify.find(text, 'url')\<close>, in text order;
  \<^item> \<open>strip_formatting\<close>: the three \<^verbatim>\<open>replace\<close> calls and the \<^verbatim>\<open>trim\<close> applied to the
    output of \<^verbatim>\<open>pm2 logs\<close>, which no property below looks into;
  \<^item> \<open>pm2_home\<close>: \<^verbatim>\<open>process.env.PM2_HOME || path.join(os.homedir(), '.pm2')\<close>.
\<close>

record 'p environment =
  exec :: "exec_call \<Rightarrow> 'p \<Rightarrow> string option \<times> 'p"
  json_procs :: "string \<Rightarrow> pm2_proc list option"
  wait :: "nat \<Rightarrow> 'p \<Rightarrow> 'p"
  read_file :: "'p \<Rightarrow> string \<Rightarrow> string option"
  writable :: "'p \<Rightarrow> bool"
  linkify_find :: "string \<Rightarrow> string list"
  strip_formatting :: "string \<Rightarrow> string"
  pm2_home :: string

text \<open>
  The world a handler runs in: the registry in the state file (a missing or unreadable
  file reads as the empty registry), the outside, the \<^verbatim>\<open>logOffset\<close> properties that the
  handlers have set on members of \<^verbatim>\<open>Object.prototype\<close> (keyed by the member's key; the
  key \<^verbatim>\<open>__proto__\<close> stands for \<^verbatim>\<open>Object.prototype\<close> itself), and the external calls made so
  far, oldest first. The global \<^verbatim>\<open>serverState\<close> is reloaded from the state file at the
  entry of every handler that reads it, so it is the handler's local value here.
\<close>

record 'p world =
  state_file :: registry
  ext :: 'p
  proto_logOffset :: "string \<rightharpoonup> nat"
  trace :: "event list"

section \<open>Property reads on the registry object\<close>

text \<open>
  \<^verbatim>\<open>serverState.managedProcesses\<close> is an ordinary object, so \<^verbatim>\<open>managedProcesses[name]\<close>
  finds an own property first and a member of \<^verbatim>\<open>Object.prototype\<close> otherwise. (Once a
  handler has set \<^verbatim>\<open>logOffset\<close> on \<^verbatim>\<open>Object.prototype\<close> itself, the key \<^verbatim>\<open>logOffset\<close> resolves
  too; the model does not follow that one key.)
\<close>

definition object_prototype_keys :: "string list" where
  "object_prototype_keys =
     [''constructor'', ''__proto__'', ''hasOwnProperty'', ''isPrototypeOf'',
      ''propertyIsEnumerable'', ''toLocaleString'', ''toString'', ''valueOf'',
      ''__defineGetter__'', ''__defineSetter__'', ''__lookupGetter__'', ''__lookupSetter__'']"

datatype looked = Absent | Own ManagedProcessConfig | Inherited string

definition lookup :: "registry \<Rightarrow> string \<Rightarrow> looked" where
  "lookup reg k =
     (case reg k of
        Some c \<Rightarrow> Own c
      | None \<Rightarrow> if k \<in> set object_prototype_keys then Inherited k else Absent)"

text \<open>The \<^verbatim>\<open>name\<close> property of a member of \<^verbatim>\<open>Object.prototype\<close>: a function's name;
  \<^verbatim>\<open>Object.prototype\<close> itself has none.\<close>

definition member_name :: "string \<Rightarrow> string option" where
  "member_name k =
     (if k = ''constructor'' then Some ''Object''
      else if k = ''__proto__'' then None
      else Some k)"

definition no_config :: ManagedProcessConfig where
  "no_config = \<lparr>name = None, script = None, cwd = None, args = None, env = None,
     interpreter = None, instances = None, watch = None, autorestart = None,
     logOffset = None\<rparr>"

text \<open>The object found, as \<^verbatim>\<open>startPm2Process\<close> reads its properties.\<close>

fun as_config :: "looked \<Rightarrow> ManagedProcessConfig" where
  "as_config (Own c) = c"
| "as_config (Inherited k) = no_config\<lparr>name := member_name k\<rparr>"
| "as_config Absent = no_config"

text \<open>\<^verbatim>\<open>managedProcesses[name]?.logOffset\<close>: own property first, then
  \<^verbatim>\<open>Object.prototype.logOffset\<close>.\<close>

fun read_logOffset :: "(string \<rightharpoonup> nat) \<Rightarrow> looked \<Rightarrow> nat option" where
  "read_logOffset pl Absent = None"
| "read_logOffset pl (Own c) =
     (case logOffset c of Some n \<Rightarrow> Some n | None \<Rightarrow> pl ''__proto__'')"
| "read_logOffset pl (Inherited k) =
     (case pl k of Some n \<Rightarrow> Some n | None \<Rightarrow> pl ''__proto__'')"

text \<open>\<^verbatim>\<open>managedProcesses[key] = config\<close>: on an object without an own property of
  that key, the key \<^verbatim>\<open>__proto__\<close> sets the prototype of the in-memory object and creates
  no own property, so nothing of it reaches the state file.\<close>

definition assign :: "registry \<Rightarrow> string \<Rightarrow> ManagedProcessConfig \<Rightarrow> registry" where
  "assign reg k c = (if k = ''__proto__'' \<and> reg k = None then reg else reg(k \<mapsto> c))"

text \<open>\<^verbatim>\<open>managedProcesses[name].logOffset = size\<close> on the object found (the handlers guard
  the absent case).\<close>

fun set_logOffset ::
  "registry \<times> (string \<rightharpoonup> nat) \<Rightarrow> string \<Rightarrow> nat \<Rightarrow> registry \<times> (string \<rightharpoonup> nat)" where
  "set_logOffset (reg, pl) k n =
     (case lookup reg k of
        Own c \<Rightarrow> (reg(k \<mapsto> c\<lparr>logOffset := Some n\<rparr>), pl)
      | Inherited m \<Rightarrow> (reg, pl(m \<mapsto> n))
      | Absent \<Rightarrow> (reg, pl))"

section \<open>Registry store and supervisor adapter\<close>

definition loadState :: "'p world \<Rightarrow> registry" where
  "loadState w = state_file w"

definition persistState ::
  "'p environment \<Rightarrow> registry \<Rightarrow> 'p world \<Rightarrow> (error + unit) \<times> 'p world" where
  "persistState E reg w =
     (let w' = w\<lparr>trace := trace w @ [WriteState]\<rparr>
      in if writable E (ext w) then (Inr (), w'\<lparr>state_file := reg\<rparr>)
         else (Inl WriteFailed, w'))"

definition runPm2 ::
  "'p environment \<Rightarrow> exec_call \<Rightarrow> 'p world \<Rightarrow> (error + string) \<times> 'p world" where
  "runPm2 E c w =
     (case exec E c (ext w) of
        (out, p') \<Rightarrow>
          ((case out of None \<Rightarrow> Inl (ExecFailed (command c)) | Some s \<Rightarrow> Inr s),
           w\<lparr>ext := p', trace := trace w @ [Pm2 c]\<rparr>))"

text \<open>\<^verbatim>\<open>runPm2(command)\<close> with the default options.\<close>

definition plain :: "string \<Rightarrow> exec_call" where
  "plain s = \<lparr>command = s, exec_cwd = None, exec_env = []\<rparr>"

text \<open>A value in a template literal, and an element under \<^verbatim>\<open>Array.prototype.join\<close>.\<close>

definition tmpl :: "string option \<Rightarrow> string" where
  "tmpl v = (case v of None \<Rightarrow> ''undefined'' | Some s \<Rightarrow> s)"

definition elem :: "string option \<Rightarrow> string" where
  "elem v = (case v of None \<Rightarrow> [] | Some s \<Rightarrow> s)"

fun join :: "string list \<Rightarrow> string" where
  "join [] = []"
| "join [p] = p"
| "join (p # q # ps) = p @ '' '' @ join (q # ps)"

definition getPm2ProcessInfo ::
  "'p environment \<Rightarrow> string option \<Rightarrow> 'p world \<Rightarrow> pm2_proc option \<times> 'p world" where
  "getPm2ProcessInfo E nm w =
     (case runPm2 E (plain ''pm2 jlist'') w of
        (Inl e, w') \<Rightarrow> (None, w')
      | (Inr out, w') \<Rightarrow>
          (case json_procs E out of
             None \<Rightarrow> (None, w')
           | Some ps \<Rightarrow> (find (\<lambda>p. Some (pname p) = nm) ps, w')))"

definition deletePm2Process :: "'p environment \<Rightarrow> string \<Rightarrow> 'p world \<Rightarrow> 'p world" where
  "deletePm2Process E nm w = snd (runPm2 E (plain (''pm2 delete '' @ nm)) w)"

definition stopPm2Process :: "'p environment \<Rightarrow> string \<Rightarrow> 'p world \<Rightarrow> 'p world" where
  "stopPm2Process E nm w = snd (runPm2 E (plain (''pm2 stop '' @ nm)) w)"

definition restartPm2Process ::
  "'p environment \<Rightarrow> string \<Rightarrow> 'p world \<Rightarrow> (error + string) \<times> 'p world" where
  "restartPm2Process E nm w = runPm2 E (plain (''pm2 restart '' @ nm)) w"

definition describePm2Process ::
  "'p environment \<Rightarrow> string \<Rightarrow> 'p world \<Rightarrow> (error + string) \<times> 'p world" where
  "describePm2Process E nm w = runPm2 E (plain (''pm2 describe '' @ nm)) w"

text \<open>\<^verbatim>\<open>String(n)\<close> for an integer.\<close>

fun digits :: "nat \<Rightarrow> string" where
  "digits n =
     (if n < 10 then [''0123456789'' ! n]
      else digits (n div 10) @ [''0123456789'' ! (n mod 10)])"

declare digits.simps [simp del]

definition String :: "int \<Rightarrow> string" where
  "String i = (if i < 0 then ''-'' @ digits (nat (- i)) else digits (nat i))"

text \<open>The array \<^verbatim>\<open>parts\<close> of \<^verbatim>\<open>startPm2Process\<close>. Its only use is \<^verbatim>\<open>parts.join(' ')\<close>,
  under which an \<^verbatim>\<open>undefined\<close> element is the empty string.\<close>

definition start_parts :: "ManagedProcessConfig \<Rightarrow> string list" where
  "start_parts c =
     [''pm2'', ''start'', elem (script c), ''--name'', elem (name c)]
     @ (case interpreter c of
          Some i \<Rightarrow> if i \<noteq> [] then [''--interpreter'', i] else []
        | None \<Rightarrow> [])
     @ (case cwd c of
          Some d \<Rightarrow> if d \<noteq> [] then [''--cwd'', d] else []
        | None \<Rightarrow> [])
     @ (case instances c of
          Some n \<Rightarrow> if n \<noteq> 0 \<and> n > 0 then [''-i'', String n] else []
        | None \<Rightarrow> [])
     @ (if watch c = Some True then [''--watch''] else [])
     @ (if watch c = Some False then [''--no-watch''] else [])
     @ (if autorestart c = Some True then [] else [''--no-autorestart''])
     @ (case args c of
          Some as \<Rightarrow> if length as > 0 then ''--'' # as else []
        | None \<Rightarrow> [])"

definition start_call :: "ManagedProcessConfig \<Rightarrow> exec_call" where
  "start_call c =
     \<lparr>command = join (start_parts c), exec_cwd = cwd c,
      exec_env = (case env c of None \<Rightarrow> [] | Some e \<Rightarrow> e)\<rparr>"

definition startPm2Process ::
  "'p environment \<Rightarrow> ManagedProcessConfig \<Rightarrow> 'p world \<Rightarrow> (error + unit) \<times> 'p world" where
  "startPm2Process E c w =
     (case getPm2ProcessInfo E (name c) w of
        (existing, w1) \<Rightarrow>
          (let create = (\<lambda>w2. case runPm2 E (start_call c) w2 of
                           (Inl e, w3) \<Rightarrow> (Inl e, w3)
                         | (Inr out, w3) \<Rightarrow> (Inr (), w3))
           in case existing of
                None \<Rightarrow> create w1
              | Some p \<Rightarrow>
                  if pstatus p = Some ''online'' then (Inr (), w1)
                  else if pstatus p = Some ''stopped'' then
                    (case restartPm2Process E (tmpl (name c)) w1 of
                       (Inl e, w2) \<Rightarrow> (Inl e, w2)
                     | (Inr out, w2) \<Rightarrow> (Inr (), w2))
                  else create (deletePm2Process E (tmpl (name c)) w1)))"

section \<open>Log files and endpoint discovery\<close>

datatype log_type = All | Out | Error

text \<open>\<^verbatim>\<open>getPm2LogPath\<close>; \<^verbatim>\<open>path.join\<close> is read as joining with a slash (no normalisation
  of the segments).\<close>

definition getPm2LogPath :: "'p environment \<Rightarrow> string \<Rightarrow> log_type \<Rightarrow> string" where
  "getPm2LogPath E nm ty =
     pm2_home E @ ''/logs/'' @ nm @ ''-'' @ (if ty = Error then ''error.log'' else ''out.log'')"

text \<open>\<^verbatim>\<open>s.includes(t)\<close> of JavaScript strings.\<close>

definition starts_with :: "string \<Rightarrow> string \<Rightarrow> bool" where
  "starts_with s t = (take (length t) s = t)"

fun str_includes :: "string \<Rightarrow> string \<Rightarrow> bool" where
  "str_includes [] t = (t = [])"
| "str_includes (c # s) t = (starts_with (c # s) t \<or> str_includes s t)"

text \<open>
  The regular expression \<^verbatim>\<open>/(?:port|Port|PORT)[\s:]+(\d{4,5})/\<close> of the port fallback,
  on texts of code units below 256. The classes \<^verbatim>\<open>[\s:]\<close> and \<^verbatim>\<open>\d\<close> are disjoint, so the
  greedy match at a position is the only one there; \<open>port_match\<close> tries the positions
  from the left and returns the capture group.
\<close>

definition is_sep :: "char \<Rightarrow> bool" where
  "is_sep c = (c \<in> set [CHR 0x09, CHR 0x0A, CHR 0x0B, CHR 0x0C, CHR 0x0D, CHR 0x20,
                          CHR 0xA0, CHR '':''])"

definition is_digit :: "char \<Rightarrow> bool" where
  "is_digit c = (c \<in> set ''0123456789'')"

definition match_here :: "string \<Rightarrow> string option" where
  "match_here s =
     (if take 4 s = ''port'' \<or> take 4 s = ''Port'' \<or> take 4 s = ''PORT'' then
        (let r = drop 4 s;
             ds = takeWhile is_digit (dropWhile is_sep r)
         in if takeWhile is_sep r \<noteq> [] \<and> 4 \<le> length ds then Some (take 5 ds) else None)
      else None)"

fun port_match :: "string \<Rightarrow> string option" where
  "port_match [] = None"
| "port_match (c # s) =
     (case match_here (c # s) of Some d \<Rightarrow> Some d | None \<Rightarrow> port_match s)"

text \<open>\<^verbatim>\<open>href.replace(/\/+$/, '')\<close>.\<close>

definition strip_slashes :: "string \<Rightarrow> string" where
  "strip_slashes h = rev (dropWhile (\<lambda>c. c = CHR ''/'') (rev h))"

definition is_local_href :: "string \<Rightarrow> bool" where
  "is_local_href h =
     (str_includes h ''localhost'' \<or> str_includes h ''127.0.0.1'' \<or> str_includes h ''0.0.0.0'')"

text \<open>The value of \<^verbatim>\<open>urlInfo\<close> in \<^verbatim>\<open>start-managed-process\<close>, from the links found and
  the log text.\<close>

definition url_info :: "string list \<Rightarrow> string \<Rightarrow> string" where
  "url_info links logs =
     (let localUrl = find is_local_href links;
          foundUrl = (case localUrl of
                        Some h \<Rightarrow> Some h
                      | None \<Rightarrow> (case links of [] \<Rightarrow> None | h # _ \<Rightarrow> Some h))
      in case foundUrl of
           Some h \<Rightarrow> '' on '' @ strip_slashes h
         | None \<Rightarrow>
             (case port_match logs of
                Some d \<Rightarrow> '' on http://localhost:'' @ d
              | None \<Rightarrow> []))"

section \<open>The tools\<close>

text \<open>The offset capture of \<^verbatim>\<open>start-managed-process\<close> and \<^verbatim>\<open>restart-managed-process\<close>:
  \<^verbatim>\<open>fs.stat\<close> of the output log, the assignment and \<^verbatim>\<open>persistState\<close>, inside a
  \<^verbatim>\<open>try\<close> whose \<^verbatim>\<open>catch\<close> is empty.\<close>

definition capture_offset ::
  "'p environment \<Rightarrow> registry \<Rightarrow> string \<Rightarrow> 'p world \<Rightarrow> 'p world" where
  "capture_offset E reg nm w =
     (case read_file E (ext w) (getPm2LogPath E nm Out) of
        None \<Rightarrow> w
      | Some bytes \<Rightarrow>
          (case set_logOffset (reg, proto_logOffset w) nm (length bytes) of
             (reg', pl') \<Rightarrow> snd (persistState E reg' (w\<lparr>proto_logOffset := pl'\<rparr>))))"

definition quoted :: "string \<Rightarrow> string" where
  "quoted nm = [CHR 0x27] @ nm @ [CHR 0x27]"

definition start_managed_process ::
  "'p environment \<Rightarrow> string \<Rightarrow> 'p world \<Rightarrow> (error + string) \<times> 'p world" where
  "start_managed_process E nm w =
     (let reg = loadState w; config = lookup reg nm
      in if config = Absent then (Inl (NotRegistered nm), w)
         else
           (case startPm2Process E (as_config config) w of
              (Inl e, w1) \<Rightarrow> (Inl e, w1)
            | (Inr u, w1) \<Rightarrow>
                (let w2 = capture_offset E reg nm (w1\<lparr>ext := wait E 500 (ext w1)\<rparr>);
                     w3 = w2\<lparr>ext := wait E 2000 (ext w2)\<rparr>
                 in case runPm2 E (plain (''pm2 logs '' @ nm @ '' --lines 100 --nostream'')) w3 of
                      (Inl e, w4) \<Rightarrow> (Inr (''Server '' @ quoted nm @ '' started''), w4)
                    | (Inr logs, w4) \<Rightarrow>
                        (Inr (''Server '' @ quoted nm @ '' started''
                              @ url_info (linkify_find E logs) logs), w4))))"

definition stop_managed_process ::
  "'p environment \<Rightarrow> string \<Rightarrow> 'p world \<Rightarrow> (error + string) \<times> 'p world" where
  "stop_managed_process E nm w =
     (Inr (''Server '' @ quoted nm @ '' stopped''), stopPm2Process E nm w)"

definition restart_managed_process ::
  "'p environment \<Rightarrow> string \<Rightarrow> 'p world \<Rightarrow> (error + string) \<times> 'p world" where
  "restart_managed_process E nm w =
     (let reg = loadState w;
          w1 = snd (runPm2 E (plain (''pm2 flush '' @ nm)) w)
      in case restartPm2Process E nm w1 of
           (Inl e, w2) \<Rightarrow> (Inl e, w2)
         | (Inr out, w2) \<Rightarrow>
             (Inr (''Server '' @ quoted nm @ '' restarted (logs flushed)''),
              if lookup reg nm = Absent then w2 else capture_offset E reg nm w2))"

definition delete_managed_process ::
  "'p environment \<Rightarrow> string \<Rightarrow> bool \<Rightarrow> 'p world \<Rightarrow> (error + string) \<times> 'p world" where
  "delete_managed_process E nm deleteFromPm2 w =
     (let reg = loadState w;
          w1 = (if deleteFromPm2 then deletePm2Process E nm w else w)
      in case persistState E (reg(nm := None)) w1 of
           (Inl e, w2) \<Rightarrow> (Inl e, w2)
         | (Inr u, w2) \<Rightarrow>
             (Inr (''Server '' @ quoted nm @ '' deleted''
                   @ (if deleteFromPm2 then '' and stopped'' else [])), w2))"

definition describe_managed_process ::
  "'p environment \<Rightarrow> string \<Rightarrow> 'p world \<Rightarrow> (error + string) \<times> 'p world" where
  "describe_managed_process E nm w = describePm2Process E nm w"

text \<open>The input of \<^verbatim>\<open>register-managed-process\<close> (without \<^verbatim>\<open>startImmediately\<close>) and the
  optional fields of \<^verbatim>\<open>update-managed-process\<close>, as the schemas declare them. A field the
  caller leaves out is no property of the parsed input.\<close>

record register_params =
  p_name :: string
  p_script :: string
  p_cwd :: "string option"
  p_args :: "string list option"
  p_env :: "(string \<times> string) list option"
  p_interpreter :: "string option"
  p_instances :: "int option"
  p_watch :: "bool option"
  p_autorestart :: "bool option"

record update_fields =
  u_script :: "string option"
  u_cwd :: "string option"
  u_args :: "string list option"
  u_env :: "(string \<times> string) list option"
  u_interpreter :: "string option"
  u_instances :: "int option"
  u_watch :: "bool option"
  u_autorestart :: "bool option"

definition register_managed_process ::
  "'p environment \<Rightarrow> register_params \<Rightarrow> bool \<Rightarrow> 'p world
     \<Rightarrow> (error + ManagedProcessConfig) \<times> 'p world" where
  "register_managed_process E params startImmediately w =
     (let reg = loadState w;
          config = \<lparr>name = Some (p_name params), script = Some (p_script params),
                    cwd = p_cwd params, args = p_args params, env = p_env params,
                    interpreter = p_interpreter params, instances = p_instances params,
                    watch = p_watch params, autorestart = p_autorestart params,
                    logOffset = None\<rparr>
      in case persistState E (assign reg (p_name params) config) w of
           (Inl e, w1) \<Rightarrow> (Inl e, w1)
         | (Inr u, w1) \<Rightarrow>
             if startImmediately then
               (case startPm2Process E config w1 of
                  (Inl e, w2) \<Rightarrow> (Inl e, w2)
                | (Inr u, w2) \<Rightarrow> (Inr config, w2))
             else (Inr config, w1))"

text \<open>\<^verbatim>\<open>{...existing}\<close>: the own enumerable properties of the object found. A member of
  \<^verbatim>\<open>Object.prototype\<close> has none but a \<^verbatim>\<open>logOffset\<close> that a handler has set on it.\<close>

fun spread :: "(string \<rightharpoonup> nat) \<Rightarrow> looked \<Rightarrow> ManagedProcessConfig" where
  "spread pl (Own c) = c"
| "spread pl (Inherited k) = no_config\<lparr>logOffset := pl k\<rparr>"
| "spread pl Absent = no_config"

definition over :: "'a option \<Rightarrow> 'a option \<Rightarrow> 'a option" where
  "over new old = (case new of Some v \<Rightarrow> Some v | None \<Rightarrow> old)"

text \<open>\<^verbatim>\<open>{...existing, ...updates, name}\<close>.\<close>

definition merge ::
  "ManagedProcessConfig \<Rightarrow> update_fields \<Rightarrow> string \<Rightarrow> ManagedProcessConfig" where
  "merge existing u nm =
     existing\<lparr>script := over (u_script u) (script existing),
              cwd := over (u_cwd u) (cwd existing),
              args := over (u_args u) (args existing),
              env := over (u_env u) (env existing),
              interpreter := over (u_interpreter u) (interpreter existing),
              instances := over (u_instances u) (instances existing),
              watch := over (u_watch u) (watch existing),
              autorestart := over (u_autorestart u) (autorestart existing),
              name := Some nm\<rparr>"

definition update_managed_process ::
  "'p environment \<Rightarrow> string \<Rightarrow> update_fields \<Rightarrow> bool \<Rightarrow> 'p world
     \<Rightarrow> (error + ManagedProcessConfig) \<times> 'p world" where
  "update_managed_process E nm u applyToPm2 w =
     (let reg = loadState w; existing = lookup reg nm
      in if existing = Absent then (Inl (NotRegistered nm), w)
         else
           (let updated = merge (spread (proto_logOffset w) existing) u nm
            in case persistState E (assign reg nm updated) w of
                 (Inl e, w1) \<Rightarrow> (Inl e, w1)
               | (Inr x, w1) \<Rightarrow>
                   if applyToPm2 then
                     (case startPm2Process E updated (deletePm2Process E nm w1) of
                        (Inl e, w2) \<Rightarrow> (Inl e, w2)
                      | (Inr x, w2) \<Rightarrow> (Inr updated, w2))
                   else (Inr updated, w1)))"

text \<open>\<^verbatim>\<open>read-managed-process-logs\<close>. The result is the text of \<^verbatim>\<open>cleanedLogs\<close> and the
  final value of \<^verbatim>\<open>freshOnly\<close>; with \<^verbatim>\<open>freshOnly\<close> set and no offset recorded, neither
  branch runs and the text stays empty. Log files are byte strings. The text of a fresh
  read is \<^verbatim>\<open>buffer.toString('utf8')\<close>: it is kept as \<open>Utf8 b\<close>, the decoding of the bytes
  \<open>b\<close> that the buffer holds. The decoding is Node's and is not computed here; it is not
  the bytes themselves (a character that the offset or the 1MB cut splits decodes to
  U+FFFD). \<open>Plain s\<close> is a string of the program or of the supervisor's output.\<close>

datatype log_text = Plain string | Utf8 string

definition tail_logs ::
  "'p environment \<Rightarrow> string \<Rightarrow> int \<Rightarrow> log_type \<Rightarrow> 'p world
     \<Rightarrow> (error + log_text \<times> bool) \<times> 'p world" where
  "tail_logs E nm lines ty w =
     (case runPm2 E (plain (''pm2 logs '' @ nm @ '' --lines '' @ String lines @ '' --nostream''
                            @ (if ty = Out then '' --out''
                               else if ty = Error then '' --err'' else []))) w of
        (Inl e, w1) \<Rightarrow> (Inl e, w1)
      | (Inr rawLogs, w1) \<Rightarrow> (Inr (Plain (strip_formatting E rawLogs), False), w1))"

definition read_managed_process_logs ::
  "'p environment \<Rightarrow> string \<Rightarrow> int \<Rightarrow> log_type \<Rightarrow> bool \<Rightarrow> 'p world
     \<Rightarrow> (error + log_text \<times> bool) \<times> 'p world" where
  "read_managed_process_logs E nm lines ty freshOnly w =
     (let reg = loadState w
      in if \<not> freshOnly then tail_logs E nm lines ty w
         else
           (case read_logOffset (proto_logOffset w) (lookup reg nm) of
              None \<Rightarrow> (Inr (Plain [], True), w)
            | Some offset \<Rightarrow>
                (case read_file E (ext w)
                        (getPm2LogPath E nm (if ty = Error then Error else Out)) of
                   None \<Rightarrow> tail_logs E nm lines ty w
                 | Some bytes \<Rightarrow>
                     (let bytesToRead = int (length bytes) - int offset
                      in if bytesToRead > 0 then
                           (let readSize = nat (min bytesToRead (1024 * 1024));
                                buffer = take readSize (drop offset bytes)
                            in case set_logOffset (reg, proto_logOffset w) nm
                                      (offset + readSize) of
                                 (reg', pl') \<Rightarrow>
                                   (case persistState E reg' (w\<lparr>proto_logOffset := pl'\<rparr>) of
                                      (Inl e, w1) \<Rightarrow> tail_logs E nm lines ty w1
                                    | (Inr u, w1) \<Rightarrow> (Inr (Utf8 buffer, True), w1)))
                         else (Inr (Plain ''(no new logs since last restart)'', True), w)))))"

text \<open>\<^verbatim>\<open>get-managed-processes\<close> and \<^verbatim>\<open>get-pm2-status\<close>. A descriptor of the model keeps the
  name and the status only, so the answers are the status by registry key (\<^verbatim>\<open>Map.set\<close>
  keeps the last descriptor of a name) and the descriptors selected.\<close>

definition status_of :: "pm2_proc list \<Rightarrow> string option \<Rightarrow> string" where
  "status_of ps nm =
     (case find (\<lambda>p. Some (pname p) = nm) (rev ps) of
        None \<Rightarrow> ''stopped''
      | Some p \<Rightarrow> (case pstatus p of None \<Rightarrow> ''stopped''
                   | Some s \<Rightarrow> if s = [] then ''stopped'' else s))"

definition get_managed_processes ::
  "'p environment \<Rightarrow> 'p world \<Rightarrow> (error + (string \<rightharpoonup> string)) \<times> 'p world" where
  "get_managed_processes E w =
     (let reg = loadState w
      in case runPm2 E (plain ''pm2 jlist'') w of
           (r, w1) \<Rightarrow>
             (let ps = (case r of Inl e \<Rightarrow> []
                        | Inr out \<Rightarrow> (case json_procs E out of None \<Rightarrow> [] | Some l \<Rightarrow> l))
              in (Inr (\<lambda>k. map_option (\<lambda>c. status_of ps (name c)) (reg k)), w1)))"

definition get_pm2_status ::
  "'p environment \<Rightarrow> string option \<Rightarrow> 'p world
     \<Rightarrow> (error + pm2_proc list option) \<times> 'p world" where
  "get_pm2_status E processName w =
     (case runPm2 E (plain ''pm2 jlist'') w of
        (Inl e, w1) \<Rightarrow> (Inr None, w1)
      | (Inr out, w1) \<Rightarrow>
          (case json_procs E out of
             None \<Rightarrow> (Inr None, w1)
           | Some ps \<Rightarrow>
               (Inr (Some (case processName of
                             None \<Rightarrow> ps
                           | Some n \<Rightarrow> if n = [] then ps else filter (\<lambda>p. pname p = n) ps)),
                w1)))"

text \<open>One call of a tool, and the world after it (whether it returns or throws).\<close>

datatype operation =
    GetManaged
  | Register register_params bool
  | Update string update_fields bool
  | Start string
  | Stop string
  | Restart string
  | Delete string bool
  | Describe string
  | ReadLogs string int log_type bool
  | GetPm2Status "string option"

fun run :: "'p environment \<Rightarrow> operation \<Rightarrow> 'p world \<Rightarrow> 'p world" where
  "run E GetManaged w = snd (get_managed_processes E w)"
| "run E (Register params startImmediately) w =
     snd (register_managed_process E params startImmediately w)"
| "run E (Update nm u applyToPm2) w = snd (update_managed_process E nm u applyToPm2 w)"
| "run E (Start nm) w = snd (start_managed_process E nm w)"
| "run E (Stop nm) w = snd (stop_managed_process E nm w)"
| "run E (Restart nm) w = snd (restart_managed_process E nm w)"
| "run E (Delete nm deleteFromPm2) w = snd (delete_managed_process E nm deleteFromPm2 w)"
| "run E (Describe nm) w = snd (describe_managed_process E nm w)"
| "run E (ReadLogs nm lines ty freshOnly) w =
     snd (read_managed_process_logs E nm lines ty freshOnly w)"
| "run E (GetPm2Status processName) w = snd (get_pm2_status E processName w)"

fun run_all :: "'p environment \<Rightarrow> operation list \<Rightarrow> 'p world \<Rightarrow> 'p world" where
  "run_all E [] w = w"
| "run_all E (op # ops) w = run_all E ops (run E op w)"

section \<open>The supervisor as the reconciler needs it\<close>

text \<open>
  The supervisor is outside the repository. What the duplicate prevention relies on is
  stated as a predicate on the environment, for a config \<open>c\<close> named \<open>n\<close> and a reading
  \<open>table\<close> of the supervisor's process list: \<^verbatim>\<open>pm2 jlist\<close> prints the list and changes
  nothing, the start command of \<open>c\<close> adds at most one process, of name \<open>n\<close>, the restart of
  \<open>n\<close> adds none, and the delete of \<open>n\<close> leaves no process of that name and adds none.
\<close>

definition count_named :: "string \<Rightarrow> pm2_proc list \<Rightarrow> nat" where
  "count_named n ps = length (filter (\<lambda>p. pname p = n) ps)"

definition supervisor_for ::
  "'p environment \<Rightarrow> ('p \<Rightarrow> pm2_proc list) \<Rightarrow> ManagedProcessConfig \<Rightarrow> string \<Rightarrow> bool" where
  "supervisor_for E table c n =
     ((\<forall>p. \<exists>out. exec E (plain ''pm2 jlist'') p = (Some out, p)
                 \<and> json_procs E out = Some (table p)) \<and>
      (\<forall>p m. count_named m (table (snd (exec E (start_call c) p)))
               \<le> count_named m (table p) + (if m = n then 1 else 0)) \<and>
      (\<forall>p m. count_named m (table (snd (exec E (plain (''pm2 restart '' @ n)) p)))
               \<le> count_named m (table p)) \<and>
      (\<forall>p m. count_named m (table (snd (exec E (plain (''pm2 delete '' @ n)) p)))
               \<le> count_named m (table p)) \<and>
      (\<forall>p. count_named n (table (snd (exec E (plain (''pm2 delete '' @ n)) p))) = 0))"

text \<open>
  A small supervisor to run the tools on. It knows the processes named \<^verbatim>\<open>web\<close>, one
  character of \<open>web_procs\<close> each (\<^verbatim>\<open>o\<close> online, \<^verbatim>\<open>s\<close> stopped, anything else errored), has
  no uniqueness constraint on names, and keeps the output log of \<^verbatim>\<open>web\<close>.
\<close>

record demo =
  web_procs :: string
  out_log :: "string option"
  disk_ok :: bool

definition demo_status :: "char \<Rightarrow> string" where
  "demo_status ch =
     (if ch = CHR ''o'' then ''online'' else if ch = CHR ''s'' then ''stopped'' else ''errored'')"

definition demo_table :: "string \<Rightarrow> pm2_proc list" where
  "demo_table s = map (\<lambda>ch. \<lparr>pname = ''web'', pstatus = Some (demo_status ch)\<rparr>) s"

definition web_config :: ManagedProcessConfig where
  "web_config = no_config\<lparr>name := Some ''web'', script := Some ''server.js''\<rparr>"

definition demo_logs :: string where
  "demo_logs = ''Local: http://localhost:3002 Network: http://192.168.1.5:3002''"

definition demo_exec :: "exec_call \<Rightarrow> demo \<Rightarrow> string option \<times> demo" where
  "demo_exec call p =
     (if command call = ''pm2 jlist'' then (Some (web_procs p), p)
      else if command call = ''pm2 start server.js --name web --no-autorestart'' then
        (Some [], p\<lparr>web_procs := web_procs p @ ''o''\<rparr>)
      else if web_procs p = [] then (None, p)
      else if command call = ''pm2 delete web'' then (Some [], p\<lparr>web_procs := []\<rparr>)
      else if command call = ''pm2 restart web'' then
        (Some [], p\<lparr>web_procs := map (\<lambda>ch. CHR ''o'') (web_procs p)\<rparr>)
      else if command call = ''pm2 stop web'' then
        (Some [], p\<lparr>web_procs := map (\<lambda>ch. CHR ''s'') (web_procs p)\<rparr>)
      else if command call = ''pm2 logs web --lines 100 --nostream'' then (Some demo_logs, p)
      else (None, p))"

definition demo_env :: "demo environment" where
  "demo_env =
     \<lparr>exec = demo_exec,
      json_procs = (\<lambda>out. Some (demo_table out)),
      wait = (\<lambda>ms p. p),
      read_file = (\<lambda>p path. if path = ''/home/dev/.pm2/logs/web-out.log'' then out_log p else None),
      writable = disk_ok,
      linkify_find = (\<lambda>text. if text = demo_logs
                               then [''http://localhost:3002'', ''http://192.168.1.5:3002'']
                               else []),
      strip_formatting = (\<lambda>text. text),
      pm2_home = ''/home/dev/.pm2''\<rparr>"

definition demo_world :: "registry \<Rightarrow> string \<Rightarrow> string option \<Rightarrow> demo world" where
  "demo_world reg procs log =
     \<lparr>state_file = reg, ext = \<lparr>web_procs = procs, out_log = log, disk_ok = True\<rparr>,
      proto_logOffset = Map.empty, trace = []\<rparr>"

text \<open>The same supervisor behind a \<^verbatim>\<open>pm2 jlist\<close> whose output \<^verbatim>\<open>JSON.parse\<close> rejects (text
  printed around the list).\<close>

definition unparsed_env :: "demo environment" where
  "unparsed_env = demo_env\<lparr>json_procs := (\<lambda>out. None)\<rparr>"

section \<open>Operations on the registry\<close>

text \<open>The object literal \<^verbatim>\<open>config\<close> of \<^verbatim>\<open>register-managed-process\<close>.\<close>

definition config_of :: "register_params \<Rightarrow> ManagedProcessConfig" where
  "config_of params =
     \<lparr>name = Some (p_name params), script = Some (p_script params),
      cwd = p_cwd params, args = p_args params, env = p_env params,
      interpreter = p_interpreter params, instances = p_instances params,
      watch = p_watch params, autorestart = p_autorestart params,
      logOffset = None\<rparr>"

text \<open>What one call of a tool can do to the registry in the state file: nothing, or the
  one change listed for the tool.\<close>

fun reg_step :: "operation \<Rightarrow> registry \<Rightarrow> registry \<Rightarrow> bool" where
  "reg_step (Register params s) r r' =
     (r' = r \<or> r' = assign r (p_name params) (config_of params))"
| "reg_step (Update nm u a) r r' =
     (r' = r \<or> (\<exists>pl. r' = assign r nm (merge (spread pl (lookup r nm)) u nm)))"
| "reg_step (Delete nm d) r r' = (r' = r \<or> r' = r(nm := None))"
| "reg_step (Start nm) r r' = (r' = r \<or> (\<exists>pl n. r' = fst (set_logOffset (r, pl) nm n)))"
| "reg_step (Restart nm) r r' = (r' = r \<or> (\<exists>pl n. r' = fst (set_logOffset (r, pl) nm n)))"
| "reg_step (ReadLogs nm l t f) r r' =
     (r' = r \<or> (f \<and> (\<exists>pl n. r' = fst (set_logOffset (r, pl) nm n))))"
| "reg_step op r r' = (r' = r)"

fun is_registry_op :: "operation \<Rightarrow> bool" where
  "is_registry_op (Register params startImmediately) = True"
| "is_registry_op (Update nm u applyToPm2) = True"
| "is_registry_op (Delete nm deleteFromPm2) = True"
| "is_registry_op op = False"

definition keyed_by_name :: "registry \<Rightarrow> bool" where
  "keyed_by_name reg = (\<forall>k c. reg k = Some c \<longrightarrow> name c = Some k)"

text \<open>The calls that write the \<^verbatim>\<open>logOffset\<close> of the entry of key \<open>k\<close>: a start, a restart
  or a fresh-only log read of \<open>k\<close>, and a registration under the name \<open>k\<close>, which replaces
  the entry by one without an offset.\<close>

fun touches_offset :: "operation \<Rightarrow> string \<Rightarrow> bool" where
  "touches_offset (Start nm) k = (nm = k)"
| "touches_offset (Restart nm) k = (nm = k)"
| "touches_offset (ReadLogs nm l t f) k = (f \<and> nm = k)"
| "touches_offset (Register params s) k = (p_name params = k)"
| "touches_offset op k = False"

definition no_update :: update_fields where
  "no_update = \<lparr>u_script = None, u_cwd = None, u_args = None, u_env = None,
     u_interpreter = None, u_instances = None, u_watch = None, u_autorestart = None\<rparr>"

definition web_params :: register_params where
  "web_params = \<lparr>p_name = ''web'', p_script = ''server.js'', p_cwd = None, p_args = None,
     p_env = None, p_interpreter = None, p_instances = None, p_watch = None,
     p_autorestart = None\<rparr>"

section \<open>The start command\<close>

lemma join_Cons: "qs \<noteq> [] \<Longrightarrow> join (p # qs) = p @ CHR '' '' # join qs"
  by (cases qs) simp_all

lemma join_spaced: "join (p # ps) = p @ concat (map ((#) CHR '' '') ps)"
  by (induction ps arbitrary: p) (simp_all add: join_Cons)



section \<open>Duplicate prevention\<close>

lemma runPm2_trace: "trace (snd (runPm2 E c w)) = trace w @ [Pm2 c]"
  by (simp add: runPm2_def split: prod.splits)

lemma runPm2_ext: "ext (snd (runPm2 E c w)) = snd (exec E c (ext w))"
  by (simp add: runPm2_def split: prod.splits)

lemma runPm2_state_file: "state_file (snd (runPm2 E c w)) = state_file w"
  by (simp add: runPm2_def split: prod.splits)

lemma runPm2_proto: "proto_logOffset (snd (runPm2 E c w)) = proto_logOffset w"
  by (simp add: runPm2_def split: prod.splits)

lemma getPm2ProcessInfo_snd:
  "snd (getPm2ProcessInfo E nm w) = snd (runPm2 E (plain ''pm2 jlist'') w)"
  by (simp add: getPm2ProcessInfo_def split: prod.splits sum.splits option.splits)

lemma getPm2ProcessInfo_trace:
  "trace (snd (getPm2ProcessInfo E nm w)) = trace w @ [Pm2 (plain ''pm2 jlist'')]"
  by (simp add: getPm2ProcessInfo_snd runPm2_trace)

lemma deletePm2Process_trace:
  "trace (deletePm2Process E nm w) = trace w @ [Pm2 (plain (''pm2 delete '' @ nm))]"
  by (simp add: deletePm2Process_def runPm2_trace)

lemma create_trace:
  "trace (snd (case runPm2 E c w of (Inl e, w3) \<Rightarrow> (Inl e, w3) | (Inr out, w3) \<Rightarrow> (Inr (), w3)))
     = trace w @ [Pm2 c]"
  using runPm2_trace [of E c w] by (auto split: prod.splits sum.splits)

lemma start_none:
  "getPm2ProcessInfo E (name c) w = (None, w1) \<Longrightarrow>
   trace (snd (startPm2Process E c w)) = trace w @ [Pm2 (plain ''pm2 jlist''), Pm2 (start_call c)]"
  using getPm2ProcessInfo_trace [of E "name c" w] create_trace [of E "start_call c" w1]
  by (simp add: startPm2Process_def)

lemma start_online:
  "getPm2ProcessInfo E (name c) w = (Some p, w1) \<Longrightarrow> pstatus p = Some ''online'' \<Longrightarrow>
   startPm2Process E c w = (Inr (), w1)"
  by (simp add: startPm2Process_def)

lemma start_stopped:
  "getPm2ProcessInfo E (name c) w = (Some p, w1) \<Longrightarrow> pstatus p = Some ''stopped'' \<Longrightarrow>
   trace (snd (startPm2Process E c w))
     = trace w @ [Pm2 (plain ''pm2 jlist''), Pm2 (plain (''pm2 restart '' @ tmpl (name c)))]"
  using getPm2ProcessInfo_trace [of E "name c" w] runPm2_trace [of E "plain (''pm2 restart '' @ tmpl (name c))" w1]
  by (auto simp: startPm2Process_def restartPm2Process_def split: prod.splits sum.splits)

lemma start_other:
  "getPm2ProcessInfo E (name c) w = (Some p, w1) \<Longrightarrow> pstatus p \<noteq> Some ''online'' \<Longrightarrow>
   pstatus p \<noteq> Some ''stopped'' \<Longrightarrow>
   trace (snd (startPm2Process E c w))
     = trace w @ [Pm2 (plain ''pm2 jlist''), Pm2 (plain (''pm2 delete '' @ tmpl (name c))),
                  Pm2 (start_call c)]"
  using getPm2ProcessInfo_trace [of E "name c" w]
    create_trace [of E "start_call c" "deletePm2Process E (tmpl (name c)) w1"]
    deletePm2Process_trace [of E "tmpl (name c)" w1]
  by (simp add: startPm2Process_def)

lemma create_ext:
  "ext (snd (case runPm2 E c w of (Inl e, w3) \<Rightarrow> (Inl e, w3) | (Inr out, w3) \<Rightarrow> (Inr (), w3)))
     = snd (exec E c (ext w))"
  using runPm2_ext [of E c w] by (auto split: prod.splits sum.splits)

lemma deletePm2Process_ext:
  "ext (deletePm2Process E nm w) = snd (exec E (plain (''pm2 delete '' @ nm)) (ext w))"
  by (simp add: deletePm2Process_def runPm2_ext)

lemma find_none_count:
  "find (\<lambda>p. Some (pname p) = Some n) ps = None \<Longrightarrow> count_named n ps = 0"
  by (auto simp: find_None_iff count_named_def filter_empty_conv)

lemma start_at_most_one:
  assumes S: "supervisor_for E table c n" and nm: "name c = Some n"
    and one: "\<forall>m. count_named m (table (ext w)) \<le> 1"
  shows "count_named m (table (ext (snd (startPm2Process E c w)))) \<le> 1"
proof -
  from S obtain out where out: "exec E (plain ''pm2 jlist'') (ext w) = (Some out, ext w)"
    "json_procs E out = Some (table (ext w))"
    unfolding supervisor_for_def by blast
  define w1 where "w1 = snd (runPm2 E (plain ''pm2 jlist'') w)"
  have e1: "ext w1 = ext w" by (simp add: w1_def runPm2_ext out)
  have q: "getPm2ProcessInfo E (name c) w
             = (find (\<lambda>p. Some (pname p) = Some n) (table (ext w)), w1)"
    using out by (simp add: getPm2ProcessInfo_def runPm2_def w1_def nm)
  from S have st: "count_named m (table (snd (exec E (start_call c) p)))
               \<le> count_named m (table p) + (if m = n then 1 else 0)" for p
    unfolding supervisor_for_def by blast
  from S have rs: "count_named m (table (snd (exec E (plain (''pm2 restart '' @ n)) p)))
               \<le> count_named m (table p)" for p
    unfolding supervisor_for_def by blast
  from S have dl: "count_named m (table (snd (exec E (plain (''pm2 delete '' @ n)) p)))
               \<le> count_named m (table p)" for p
    unfolding supervisor_for_def by blast
  from S have d0: "count_named n (table (snd (exec E (plain (''pm2 delete '' @ n)) p))) = 0" for p
    unfolding supervisor_for_def by blast
  from one have o: "count_named m (table (ext w)) \<le> 1" by blast
  show ?thesis
  proof (cases "find (\<lambda>p. Some (pname p) = Some n) (table (ext w))")
    case None
    then have z: "count_named n (table (ext w)) = 0" by (rule find_none_count)
    have "ext (snd (startPm2Process E c w)) = snd (exec E (start_call c) (ext w))"
      using q None create_ext [of E "start_call c" w1] e1 by (simp add: startPm2Process_def)
    then show ?thesis using st [of "ext w"] z o by (cases "m = n") auto
  next
    case (Some p)
    show ?thesis
    proof (cases "pstatus p = Some ''online''")
      case True
      then show ?thesis using q Some e1 o by (simp add: startPm2Process_def)
    next
      case False
      note off = False
      show ?thesis
      proof (cases "pstatus p = Some ''stopped''")
        case True
        have "ext (snd (startPm2Process E c w)) = snd (exec E (plain (''pm2 restart '' @ n)) (ext w))"
          using q Some off True e1 runPm2_ext [of E "plain (''pm2 restart '' @ n)" w1]
          by (auto simp: startPm2Process_def restartPm2Process_def nm tmpl_def
              split: prod.splits sum.splits)
        then show ?thesis using rs [of "ext w"] o by simp
      next
        case False
        define w2 where "w2 = deletePm2Process E n w1"
        have e2: "ext w2 = snd (exec E (plain (''pm2 delete '' @ n)) (ext w))"
          by (simp add: w2_def deletePm2Process_ext e1)
        have "ext (snd (startPm2Process E c w)) = snd (exec E (start_call c) (ext w2))"
          using q Some off False create_ext [of E "start_call c" w2]
          by (simp add: startPm2Process_def nm tmpl_def w2_def)
        then show ?thesis
          using st [of "ext w2"] dl [of "ext w"] d0 [of "ext w"] o e2 by (cases "m = n") auto
      qed
    qed
  qed
qed


lemma getPm2ProcessInfo_found:
  "getPm2ProcessInfo E nm w = (Some p, w1) \<Longrightarrow> Some (pname p) = nm"
  by (auto simp: getPm2ProcessInfo_def find_Some_iff split: prod.splits sum.splits option.splits)

lemma startPm2Process_explicit:
  assumes "name c = Some n"
  shows
  "(case exec E \<lparr>command = ''pm2 jlist'', exec_cwd = None, exec_env = []\<rparr> (ext w) of
      (out, p1) \<Rightarrow>
        (case (case out of
                 None \<Rightarrow> None
               | Some s \<Rightarrow> (case json_procs E s of
                              None \<Rightarrow> None
                            | Some ps \<Rightarrow> find (\<lambda>p. pname p = n) ps)) of
           None \<Rightarrow>
             (case exec E \<lparr>command = join (start_parts c), exec_cwd = cwd c,
                            exec_env = (case env c of None \<Rightarrow> [] | Some e \<Rightarrow> e)\<rparr> p1 of
                (out2, p2) \<Rightarrow>
                  startPm2Process E c w
                    = ((case out2 of None \<Rightarrow> Inl (ExecFailed (join (start_parts c))) | Some s \<Rightarrow> Inr ()),
                       w\<lparr>ext := p2,
                         trace := trace w @
                           [Pm2 \<lparr>command = ''pm2 jlist'', exec_cwd = None, exec_env = []\<rparr>,
                            Pm2 \<lparr>command = join (start_parts c), exec_cwd = cwd c,
                                 exec_env = (case env c of None \<Rightarrow> [] | Some e \<Rightarrow> e)\<rparr>]\<rparr>))
         | Some p \<Rightarrow>
             if pstatus p = Some ''online'' then
               startPm2Process E c w
                 = (Inr (), w\<lparr>ext := p1,
                              trace := trace w @
                                [Pm2 \<lparr>command = ''pm2 jlist'', exec_cwd = None, exec_env = []\<rparr>]\<rparr>)
             else if pstatus p = Some ''stopped'' then
               (case exec E \<lparr>command = ''pm2 restart '' @ n, exec_cwd = None, exec_env = []\<rparr> p1 of
                  (out2, p2) \<Rightarrow>
                    startPm2Process E c w
                      = ((case out2 of None \<Rightarrow> Inl (ExecFailed (''pm2 restart '' @ n)) | Some s \<Rightarrow> Inr ()),
                         w\<lparr>ext := p2,
                           trace := trace w @
                             [Pm2 \<lparr>command = ''pm2 jlist'', exec_cwd = None, exec_env = []\<rparr>,
                              Pm2 \<lparr>command = ''pm2 restart '' @ n, exec_cwd = None, exec_env = []\<rparr>]\<rparr>))
             else
               (case exec E \<lparr>command = join (start_parts c), exec_cwd = cwd c,
                              exec_env = (case env c of None \<Rightarrow> [] | Some e \<Rightarrow> e)\<rparr>
                       (snd (exec E \<lparr>command = ''pm2 delete '' @ n, exec_cwd = None, exec_env = []\<rparr> p1)) of
                  (out3, p3) \<Rightarrow>
                    startPm2Process E c w
                      = ((case out3 of None \<Rightarrow> Inl (ExecFailed (join (start_parts c))) | Some s \<Rightarrow> Inr ()),
                         w\<lparr>ext := p3,
                           trace := trace w @
                             [Pm2 \<lparr>command = ''pm2 jlist'', exec_cwd = None, exec_env = []\<rparr>,
                              Pm2 \<lparr>command = ''pm2 delete '' @ n, exec_cwd = None, exec_env = []\<rparr>,
                              Pm2 \<lparr>command = join (start_parts c), exec_cwd = cwd c,
                                   exec_env = (case env c of None \<Rightarrow> [] | Some e \<Rightarrow> e)\<rparr>]\<rparr>))))"
  using assms
  by (simp add: startPm2Process_def getPm2ProcessInfo_def runPm2_def restartPm2Process_def
      deletePm2Process_def plain_def start_call_def tmpl_def
      split: prod.splits option.splits sum.splits)

lemma start_command_prefix:
  "name c = Some n \<Longrightarrow>
   join (start_parts c)
     = ''pm2 start '' @ (case script c of None \<Rightarrow> [] | Some s \<Rightarrow> s) @ '' --name '' @ n
       @ concat (map ((#) CHR '' '') (drop 5 (start_parts c)))"
proof -
  assume n: "name c = Some n"
  obtain opts where o: "start_parts c = ''pm2'' # ''start'' # elem (script c) # ''--name'' # elem (name c) # opts"
    by (simp add: start_parts_def)
  then have "drop 5 (start_parts c) = opts" by simp
  then show ?thesis using o n by (simp add: join_spaced elem_def)
qed

text \<open>
  Claim C1, as the code has it. For a config named \<open>n\<close>, \<^verbatim>\<open>startPm2Process\<close> first executes
  \<^verbatim>\<open>pm2 jlist\<close>. The descriptor found is the first of name \<open>n\<close> in the parsed output, and
  none when the command fails or its output is not parsed. With none it executes the
  start command, \<^verbatim>\<open>pm2 start <script> --name <n>\<close> and the options, with the config's
  \<^verbatim>\<open>cwd\<close> and \<^verbatim>\<open>env\<close>; with one that is online it executes nothing more and returns
  without error; with one that is stopped it executes \<^verbatim>\<open>pm2 restart <n>\<close> and no start;
  with any other status it executes \<^verbatim>\<open>pm2 delete <n>\<close>, whatever its outcome, and then the
  start command. The call fails exactly when the restart or the start it executes fails.
  On a supervisor whose \<^verbatim>\<open>pm2 jlist\<close> prints its process list, that adds at most one
  process of the name on a start, none on a restart, and removes the name's processes on
  a delete, a list with at most one process per name stays so.
\<close>

theorem startPm2Process_reconciles:
  assumes "name c = Some n"
  shows
  "(case exec E \<lparr>command = ''pm2 jlist'', exec_cwd = None, exec_env = []\<rparr> (ext w) of
      (out, p1) \<Rightarrow>
        (case (case out of
                 None \<Rightarrow> None
               | Some s \<Rightarrow> (case json_procs E s of
                              None \<Rightarrow> None
                            | Some ps \<Rightarrow> find (\<lambda>p. pname p = n) ps)) of
           None \<Rightarrow>
             (case exec E \<lparr>command = join (start_parts c), exec_cwd = cwd c,
                            exec_env = (case env c of None \<Rightarrow> [] | Some e \<Rightarrow> e)\<rparr> p1 of
                (out2, p2) \<Rightarrow>
                  startPm2Process E c w
                    = ((case out2 of None \<Rightarrow> Inl (ExecFailed (join (start_parts c))) | Some s \<Rightarrow> Inr ()),
                       w\<lparr>ext := p2,
                         trace := trace w @
                           [Pm2 \<lparr>command = ''pm2 jlist'', exec_cwd = None, exec_env = []\<rparr>,
                            Pm2 \<lparr>command = join (start_parts c), exec_cwd = cwd c,
                                 exec_env = (case env c of None \<Rightarrow> [] | Some e \<Rightarrow> e)\<rparr>]\<rparr>))
         | Some p \<Rightarrow>
             if pstatus p = Some ''online'' then
               startPm2Process E c w
                 = (Inr (), w\<lparr>ext := p1,
                              trace := trace w @
                                [Pm2 \<lparr>command = ''pm2 jlist'', exec_cwd = None, exec_env = []\<rparr>]\<rparr>)
             else if pstatus p = Some ''stopped'' then
               (case exec E \<lparr>command = ''pm2 restart '' @ n, exec_cwd = None, exec_env = []\<rparr> p1 of
                  (out2, p2) \<Rightarrow>
                    startPm2Process E c w
                      = ((case out2 of None \<Rightarrow> Inl (ExecFailed (''pm2 restart '' @ n)) | Some s \<Rightarrow> Inr ()),
                         w\<lparr>ext := p2,
                           trace := trace w @
                             [Pm2 \<lparr>command = ''pm2 jlist'', exec_cwd = None, exec_env = []\<rparr>,
                              Pm2 \<lparr>command = ''pm2 restart '' @ n, exec_cwd = None, exec_env = []\<rparr>]\<rparr>))
             else
               (case exec E \<lparr>command = join (start_parts c), exec_cwd = cwd c,
                              exec_env = (case env c of None \<Rightarrow> [] | Some e \<Rightarrow> e)\<rparr>
                       (snd (exec E \<lparr>command = ''pm2 delete '' @ n, exec_cwd = None, exec_env = []\<rparr> p1)) of
                  (out3, p3) \<Rightarrow>
                    startPm2Process E c w
                      = ((case out3 of None \<Rightarrow> Inl (ExecFailed (join (start_parts c))) | Some s \<Rightarrow> Inr ()),
                         w\<lparr>ext := p3,
                           trace := trace w @
                             [Pm2 \<lparr>command = ''pm2 jlist'', exec_cwd = None, exec_env = []\<rparr>,
                              Pm2 \<lparr>command = ''pm2 delete '' @ n, exec_cwd = None, exec_env = []\<rparr>,
                              Pm2 \<lparr>command = join (start_parts c), exec_cwd = cwd c,
                                   exec_env = (case env c of None \<Rightarrow> [] | Some e \<Rightarrow> e)\<rparr>]\<rparr>)))) \<and>
   join (start_parts c)
     = ''pm2 start '' @ (case script c of None \<Rightarrow> [] | Some s \<Rightarrow> s) @ '' --name '' @ n
       @ concat (map ((#) CHR '' '') (drop 5 (start_parts c))) \<and>
   (supervisor_for E table c n \<longrightarrow> (\<forall>m. count_named m (table (ext w)) \<le> 1) \<longrightarrow>
    (\<forall>m. count_named m (table (ext (snd (startPm2Process E c w)))) \<le> 1))"
  using startPm2Process_explicit [OF assms, of E w] start_command_prefix [OF assms]
    start_at_most_one [of E table c n w] assms
  by blast

lemma count_named_demo:
  "count_named m (demo_table s) = (if m = ''web'' then length s else 0)"
  by (induction s) (auto simp: count_named_def demo_table_def)

lemma demo_supervisor: "supervisor_for demo_env (\<lambda>p. demo_table (web_procs p)) web_config ''web''"
  unfolding supervisor_for_def
proof (intro conjI allI)
  fix p :: demo and m :: string
  show "\<exists>out. exec demo_env (plain ''pm2 jlist'') p = (Some out, p) \<and>
         json_procs demo_env out = Some (demo_table (web_procs p))"
    by (simp add: demo_env_def demo_exec_def plain_def)
  have sc: "command (start_call web_config) = ''pm2 start server.js --name web --no-autorestart''"
    by (simp add: start_call_def start_parts_def web_config_def no_config_def elem_def)
  show "count_named m (demo_table (web_procs (snd (exec demo_env (start_call web_config) p))))
          \<le> count_named m (demo_table (web_procs p)) + (if m = ''web'' then 1 else 0)"
    by (simp add: demo_env_def demo_exec_def sc count_named_demo)
  show "count_named m (demo_table (web_procs (snd (exec demo_env (plain (''pm2 restart '' @ ''web'')) p))))
          \<le> count_named m (demo_table (web_procs p))"
    by (simp add: demo_env_def demo_exec_def plain_def count_named_demo)
  show "count_named m (demo_table (web_procs (snd (exec demo_env (plain (''pm2 delete '' @ ''web'')) p))))
          \<le> count_named m (demo_table (web_procs p))"
    by (simp add: demo_env_def demo_exec_def plain_def count_named_demo)
  show "count_named ''web'' (demo_table (web_procs (snd (exec demo_env (plain (''pm2 delete '' @ ''web'')) p)))) = 0"
    by (simp add: demo_env_def demo_exec_def plain_def count_named_demo)
qed

lemmas demo_simps = demo_env_def demo_exec_def demo_world_def demo_table_def demo_status_def
  web_config_def no_config_def plain_def start_call_def start_parts_def elem_def tmpl_def
  runPm2_def getPm2ProcessInfo_def startPm2Process_def restartPm2Process_def deletePm2Process_def

text \<open>When the output of \<^verbatim>\<open>pm2 jlist\<close> cannot be parsed, the reconciler takes the name as
  absent: beside the one online process \<^verbatim>\<open>web\<close> it starts a second.\<close>

theorem reconciler_duplicates_on_unparsed_list:
  "count_named ''web'' (demo_table (web_procs (ext (demo_world Map.empty ''o'' None)))) = 1 \<and>
   exec unparsed_env \<lparr>command = ''pm2 jlist'', exec_cwd = None, exec_env = []\<rparr>
       (ext (demo_world Map.empty ''o'' None))
     = (Some ''o'', ext (demo_world Map.empty ''o'' None)) \<and>
   json_procs unparsed_env ''o'' = None \<and>
   startPm2Process unparsed_env web_config (demo_world Map.empty ''o'' None)
     = (Inr (),
        \<lparr>state_file = Map.empty, ext = \<lparr>web_procs = ''oo'', out_log = None, disk_ok = True\<rparr>,
         proto_logOffset = Map.empty,
         trace = [Pm2 \<lparr>command = ''pm2 jlist'', exec_cwd = None, exec_env = []\<rparr>,
                  Pm2 \<lparr>command = ''pm2 start server.js --name web --no-autorestart'',
                       exec_cwd = None, exec_env = []\<rparr>]\<rparr>) \<and>
   count_named ''web'' (demo_table (web_procs (ext (snd
       (startPm2Process unparsed_env web_config (demo_world Map.empty ''o'' None)))))) = 2"
  by (simp add: unparsed_env_def demo_simps count_named_def)

theorem startPm2Process_reconciles_witness:
  "startPm2Process demo_env web_config (demo_world Map.empty [] None)
     = (Inr (),
        \<lparr>state_file = Map.empty, ext = \<lparr>web_procs = ''o'', out_log = None, disk_ok = True\<rparr>,
         proto_logOffset = Map.empty,
         trace = [Pm2 \<lparr>command = ''pm2 jlist'', exec_cwd = None, exec_env = []\<rparr>,
                  Pm2 \<lparr>command = ''pm2 start server.js --name web --no-autorestart'',
                       exec_cwd = None, exec_env = []\<rparr>]\<rparr>) \<and>
   startPm2Process demo_env web_config (demo_world Map.empty ''o'' None)
     = (Inr (),
        \<lparr>state_file = Map.empty, ext = \<lparr>web_procs = ''o'', out_log = None, disk_ok = True\<rparr>,
         proto_logOffset = Map.empty,
         trace = [Pm2 \<lparr>command = ''pm2 jlist'', exec_cwd = None, exec_env = []\<rparr>]\<rparr>) \<and>
   startPm2Process demo_env web_config (demo_world Map.empty ''s'' None)
     = (Inr (),
        \<lparr>state_file = Map.empty, ext = \<lparr>web_procs = ''o'', out_log = None, disk_ok = True\<rparr>,
         proto_logOffset = Map.empty,
         trace = [Pm2 \<lparr>command = ''pm2 jlist'', exec_cwd = None, exec_env = []\<rparr>,
                  Pm2 \<lparr>command = ''pm2 restart web'', exec_cwd = None, exec_env = []\<rparr>]\<rparr>) \<and>
   startPm2Process demo_env web_config (demo_world Map.empty ''e'' None)
     = (Inr (),
        \<lparr>state_file = Map.empty, ext = \<lparr>web_procs = ''o'', out_log = None, disk_ok = True\<rparr>,
         proto_logOffset = Map.empty,
         trace = [Pm2 \<lparr>command = ''pm2 jlist'', exec_cwd = None, exec_env = []\<rparr>,
                  Pm2 \<lparr>command = ''pm2 delete web'', exec_cwd = None, exec_env = []\<rparr>,
                  Pm2 \<lparr>command = ''pm2 start server.js --name web --no-autorestart'',
                       exec_cwd = None, exec_env = []\<rparr>]\<rparr>) \<and>
   (\<forall>m. count_named m (demo_table (web_procs (ext (snd
          (startPm2Process demo_env web_config (demo_world Map.empty ''e'' None)))))) \<le> 1)"
proof -
  have one: "\<forall>m. count_named m (demo_table (web_procs (ext (demo_world Map.empty ''e'' None)))) \<le> 1"
    by (simp add: count_named_demo demo_world_def)
  have nm: "name web_config = Some ''web''" by (simp add: web_config_def no_config_def)
  have runs:
    "startPm2Process demo_env web_config (demo_world Map.empty [] None)
     = (Inr (),
        \<lparr>state_file = Map.empty, ext = \<lparr>web_procs = ''o'', out_log = None, disk_ok = True\<rparr>,
         proto_logOffset = Map.empty,
         trace = [Pm2 \<lparr>command = ''pm2 jlist'', exec_cwd = None, exec_env = []\<rparr>,
                  Pm2 \<lparr>command = ''pm2 start server.js --name web --no-autorestart'',
                       exec_cwd = None, exec_env = []\<rparr>]\<rparr>)"
    "startPm2Process demo_env web_config (demo_world Map.empty ''o'' None)
     = (Inr (),
        \<lparr>state_file = Map.empty, ext = \<lparr>web_procs = ''o'', out_log = None, disk_ok = True\<rparr>,
         proto_logOffset = Map.empty,
         trace = [Pm2 \<lparr>command = ''pm2 jlist'', exec_cwd = None, exec_env = []\<rparr>]\<rparr>)"
    "startPm2Process demo_env web_config (demo_world Map.empty ''s'' None)
     = (Inr (),
        \<lparr>state_file = Map.empty, ext = \<lparr>web_procs = ''o'', out_log = None, disk_ok = True\<rparr>,
         proto_logOffset = Map.empty,
         trace = [Pm2 \<lparr>command = ''pm2 jlist'', exec_cwd = None, exec_env = []\<rparr>,
                  Pm2 \<lparr>command = ''pm2 restart web'', exec_cwd = None, exec_env = []\<rparr>]\<rparr>)"
    "startPm2Process demo_env web_config (demo_world Map.empty ''e'' None)
     = (Inr (),
        \<lparr>state_file = Map.empty, ext = \<lparr>web_procs = ''o'', out_log = None, disk_ok = True\<rparr>,
         proto_logOffset = Map.empty,
         trace = [Pm2 \<lparr>command = ''pm2 jlist'', exec_cwd = None, exec_env = []\<rparr>,
                  Pm2 \<lparr>command = ''pm2 delete web'', exec_cwd = None, exec_env = []\<rparr>,
                  Pm2 \<lparr>command = ''pm2 start server.js --name web --no-autorestart'',
                       exec_cwd = None, exec_env = []\<rparr>]\<rparr>)"
    by (simp_all add: demo_simps)
  have last: "\<forall>m. count_named m (demo_table (web_procs (ext (snd
          (startPm2Process demo_env web_config (demo_world Map.empty ''e'' None)))))) \<le> 1"
    using startPm2Process_reconciles [OF nm, where E = demo_env and w = "demo_world Map.empty ''e'' None"
          and table = "\<lambda>p. demo_table (web_procs p)"]
      demo_supervisor one
    by blast
  show ?thesis using runs last by blast
qed

section \<open>The registry under the tools\<close>

lemma persistState_state_file:
  "state_file (snd (persistState E reg w)) = (if writable E (ext w) then reg else state_file w)"
  by (simp add: persistState_def Let_def)

lemma persistState_result:
  "fst (persistState E reg w) = (if writable E (ext w) then Inr () else Inl WriteFailed)"
  by (simp add: persistState_def Let_def)

lemma persistState_ext: "ext (snd (persistState E reg w)) = ext w"
  by (simp add: persistState_def Let_def)

lemma persistState_proto: "proto_logOffset (snd (persistState E reg w)) = proto_logOffset w"
  by (simp add: persistState_def Let_def)

lemma persistState_trace: "trace (snd (persistState E reg w)) = trace w @ [WriteState]"
  by (simp add: persistState_def Let_def)

lemma deletePm2Process_state_file: "state_file (deletePm2Process E nm w) = state_file w"
  by (simp add: deletePm2Process_def runPm2_state_file)

lemma stopPm2Process_state_file: "state_file (stopPm2Process E nm w) = state_file w"
  by (simp add: stopPm2Process_def runPm2_state_file)

lemma getPm2ProcessInfo_state_file: "state_file (snd (getPm2ProcessInfo E nm w)) = state_file w"
  by (simp add: getPm2ProcessInfo_snd runPm2_state_file)

lemma create_state_file:
  "state_file (snd (case runPm2 E c w of (Inl e, w3) \<Rightarrow> (Inl e, w3) | (Inr out, w3) \<Rightarrow> (Inr (), w3)))
     = state_file w"
  using runPm2_state_file [of E c w] by (auto split: prod.splits sum.splits)

lemma startPm2Process_state_file: "state_file (snd (startPm2Process E c w)) = state_file w"
proof -
  obtain existing w1 where q: "getPm2ProcessInfo E (name c) w = (existing, w1)"
    by (cases "getPm2ProcessInfo E (name c) w")
  have s1: "state_file w1 = state_file w"
    using getPm2ProcessInfo_state_file [of E "name c" w] q by simp
  have r: "state_file (snd (case restartPm2Process E nm w1 of
                       (Inl e, w2) \<Rightarrow> (Inl e, w2)
                     | (Inr out, w2) \<Rightarrow> (Inr (), w2))) = state_file w1" for nm
    using runPm2_state_file [of E "plain (''pm2 restart '' @ nm)" w1]
    by (auto simp: restartPm2Process_def split: prod.splits sum.splits)
  show ?thesis
    using q s1 r create_state_file [of E "start_call c"] deletePm2Process_state_file [of E _ w1]
    by (simp add: startPm2Process_def split: option.splits)
qed

lemma capture_offset_state_file:
  "state_file (capture_offset E reg nm w) = state_file w \<or>
   (\<exists>pl n. state_file (capture_offset E reg nm w) = fst (set_logOffset (reg, pl) nm n))"
proof (cases "read_file E (ext w) (getPm2LogPath E nm Out)")
  case None
  then show ?thesis by (simp add: capture_offset_def)
next
  case (Some bytes)
  obtain reg' pl' where s: "set_logOffset (reg, proto_logOffset w) nm (length bytes) = (reg', pl')"
    by (cases "set_logOffset (reg, proto_logOffset w) nm (length bytes)")
  have c: "capture_offset E reg nm w = snd (persistState E reg' (w\<lparr>proto_logOffset := pl'\<rparr>))"
    using Some s by (simp add: capture_offset_def)
  show ?thesis
  proof (cases "writable E (ext w)")
    case True
    then have "state_file (capture_offset E reg nm w) = fst (set_logOffset (reg, proto_logOffset w) nm (length bytes))"
      using c s by (simp add: persistState_state_file)
    then show ?thesis by blast
  next
    case False
    then show ?thesis using c by (simp add: persistState_state_file)
  qed
qed

lemma register_step:
  "reg_step (Register params s) (state_file w) (state_file (snd (register_managed_process E params s w)))"
proof -
  define reg' where "reg' = assign (state_file w) (p_name params) (config_of params)"
  obtain r w1 where p: "persistState E reg' w = (r, w1)" by (cases "persistState E reg' w")
  have s1: "state_file w1 = state_file w \<or> state_file w1 = reg'"
    using persistState_state_file [of E reg' w] p by (simp split: if_splits)
  obtain r2 w2 where q: "startPm2Process E (config_of params) w1 = (r2, w2)"
    by (cases "startPm2Process E (config_of params) w1")
  have s2: "state_file w2 = state_file w1"
    using startPm2Process_state_file [of E "config_of params" w1] q by simp
  have "state_file (snd (register_managed_process E params s w)) = state_file w1"
    using p q s2
    by (cases r; cases r2; cases s)
       (simp_all add: register_managed_process_def Let_def loadState_def config_of_def [symmetric]
          reg'_def [symmetric])
  then show ?thesis using s1 by (auto simp: reg'_def)
qed

lemma update_step:
  "reg_step (Update nm u a) (state_file w) (state_file (snd (update_managed_process E nm u a w)))"
proof (cases "lookup (state_file w) nm = Absent")
  case True
  then show ?thesis by (simp add: update_managed_process_def Let_def loadState_def)
next
  case False
  define updated where "updated = merge (spread (proto_logOffset w) (lookup (state_file w) nm)) u nm"
  define reg' where "reg' = assign (state_file w) nm updated"
  obtain r w1 where p: "persistState E reg' w = (r, w1)" by (cases "persistState E reg' w")
  have s1: "state_file w1 = state_file w \<or> state_file w1 = reg'"
    using persistState_state_file [of E reg' w] p by (simp split: if_splits)
  obtain r2 w2 where q: "startPm2Process E updated (deletePm2Process E nm w1) = (r2, w2)"
    by (cases "startPm2Process E updated (deletePm2Process E nm w1)")
  have s2: "state_file w2 = state_file w1"
    using startPm2Process_state_file [of E updated "deletePm2Process E nm w1"] q
    by (simp add: deletePm2Process_state_file)
  have "state_file (snd (update_managed_process E nm u a w)) = state_file w1"
    using False p q s2
    by (cases r; cases r2; cases a)
       (simp_all add: update_managed_process_def Let_def loadState_def updated_def [symmetric]
          reg'_def [symmetric])
  then show ?thesis using s1 by (auto simp: reg'_def updated_def)
qed

lemma delete_state_file:
  "state_file (snd (delete_managed_process E nm d w))
     = (if writable E (ext (if d then deletePm2Process E nm w else w))
        then (state_file w)(nm := None) else state_file w)"
proof -
  define w1 where "w1 = (if d then deletePm2Process E nm w else w)"
  have s1: "state_file w1 = state_file w" by (simp add: w1_def deletePm2Process_state_file)
  obtain r w2 where p: "persistState E ((state_file w)(nm := None)) w1 = (r, w2)"
    by (cases "persistState E ((state_file w)(nm := None)) w1")
  have "state_file (snd (delete_managed_process E nm d w)) = state_file w2"
    using p by (cases r) (simp_all add: delete_managed_process_def Let_def loadState_def w1_def)
  then show ?thesis
    using persistState_state_file [of E "(state_file w)(nm := None)" w1] p s1
    by (simp add: w1_def)
qed

lemma delete_step:
  "reg_step (Delete nm d) (state_file w) (state_file (snd (delete_managed_process E nm d w)))"
  by (simp add: delete_state_file)

lemma start_step:
  "reg_step (Start nm) (state_file w) (state_file (snd (start_managed_process E nm w)))"
proof (cases "lookup (state_file w) nm = Absent")
  case True
  then show ?thesis by (simp add: start_managed_process_def Let_def loadState_def)
next
  case False
  define c where "c = as_config (lookup (state_file w) nm)"
  obtain r w1 where q: "startPm2Process E c w = (r, w1)" by (cases "startPm2Process E c w")
  have s1: "state_file w1 = state_file w"
    using startPm2Process_state_file [of E c w] q by simp
  show ?thesis
  proof (cases r)
    case (Inl e)
    then show ?thesis using False q s1
      by (simp add: start_managed_process_def Let_def loadState_def c_def [symmetric])
  next
    case (Inr u)
    define w2 where "w2 = capture_offset E (state_file w) nm (w1\<lparr>ext := wait E 500 (ext w1)\<rparr>)"
    define w3 where "w3 = w2\<lparr>ext := wait E 2000 (ext w2)\<rparr>"
    obtain r4 w4 where l: "runPm2 E (plain (''pm2 logs '' @ nm @ '' --lines 100 --nostream'')) w3 = (r4, w4)"
      by (cases "runPm2 E (plain (''pm2 logs '' @ nm @ '' --lines 100 --nostream'')) w3")
    have s4: "state_file w4 = state_file w2"
      using runPm2_state_file [of E "plain (''pm2 logs '' @ nm @ '' --lines 100 --nostream'')" w3] l
      by (simp add: w3_def)
    have "snd (start_managed_process E nm w) = w4"
      unfolding start_managed_process_def Let_def loadState_def c_def [symmetric]
      using False q Inr l
      by (cases r4) (simp_all add: w2_def [symmetric] w3_def [symmetric])
    then have "state_file (snd (start_managed_process E nm w)) = state_file w4" by simp
    then show ?thesis
      using s4 s1 capture_offset_state_file [of E "state_file w" nm "w1\<lparr>ext := wait E 500 (ext w1)\<rparr>"]
      by (auto simp: w2_def)
  qed
qed

lemma restart_step:
  "reg_step (Restart nm) (state_file w) (state_file (snd (restart_managed_process E nm w)))"
proof -
  define w1 where "w1 = snd (runPm2 E (plain (''pm2 flush '' @ nm)) w)"
  have s1: "state_file w1 = state_file w" by (simp add: w1_def runPm2_state_file)
  obtain r w2 where q: "restartPm2Process E nm w1 = (r, w2)" by (cases "restartPm2Process E nm w1")
  have s2: "state_file w2 = state_file w"
    using runPm2_state_file [of E "plain (''pm2 restart '' @ nm)" w1] q s1
    by (simp add: restartPm2Process_def)
  show ?thesis
  proof (cases r)
    case (Inl e)
    have "restart_managed_process E nm w = (Inl e, w2)"
      unfolding restart_managed_process_def Let_def loadState_def w1_def [symmetric]
      using q Inl by simp
    then show ?thesis using s2 by simp
  next
    case (Inr out)
    have "snd (restart_managed_process E nm w)
                 = (if lookup (state_file w) nm = Absent then w2
                    else capture_offset E (state_file w) nm w2)"
      unfolding restart_managed_process_def Let_def loadState_def w1_def [symmetric]
      using q Inr by simp
    then have "state_file (snd (restart_managed_process E nm w))
                 = state_file (if lookup (state_file w) nm = Absent then w2
                               else capture_offset E (state_file w) nm w2)"
      by simp
    then show ?thesis
      using s2 capture_offset_state_file [of E "state_file w" nm w2]
      by (auto split: if_splits)
  qed
qed

lemma tail_logs_state_file: "state_file (snd (tail_logs E nm l t w)) = state_file w"
proof -
  obtain c where "tail_logs E nm l t w =
                   (case runPm2 E c w of
                      (Inl e, w1) \<Rightarrow> (Inl e, w1)
                    | (Inr rawLogs, w1) \<Rightarrow> (Inr (Plain (strip_formatting E rawLogs), False), w1))"
    by (simp add: tail_logs_def)
  then show ?thesis using runPm2_state_file [of E c w]
    by (auto split: prod.splits sum.splits)
qed

lemma read_logs_step:
  "reg_step (ReadLogs nm l t f) (state_file w)
     (state_file (snd (read_managed_process_logs E nm l t f w)))"
proof (cases f)
  case False
  then show ?thesis
    by (simp add: read_managed_process_logs_def Let_def tail_logs_state_file)
next
  case True
  note f = True
  show ?thesis
  proof (cases "read_logOffset (proto_logOffset w) (lookup (state_file w) nm)")
    case None
    then show ?thesis using f by (simp add: read_managed_process_logs_def Let_def loadState_def)
  next
    case (Some offset)
    note off = Some
    show ?thesis
    proof (cases "read_file E (ext w) (getPm2LogPath E nm (if t = Error then Error else Out))")
      case None
      then show ?thesis using f off
        by (simp add: read_managed_process_logs_def Let_def loadState_def tail_logs_state_file)
    next
      case (Some bytes)
      show ?thesis
      proof (cases "int (length bytes) - int offset > 0")
        case False
        then show ?thesis using f off Some
          by (simp add: read_managed_process_logs_def Let_def loadState_def)
      next
        case True
        let ?n = "offset + nat (min (int (length bytes) - int offset) (1024 * 1024))"
        obtain reg' pl' where s: "set_logOffset (state_file w, proto_logOffset w) nm ?n = (reg', pl')"
          by (cases "set_logOffset (state_file w, proto_logOffset w) nm ?n")
        obtain r w1 where p: "persistState E reg' (w\<lparr>proto_logOffset := pl'\<rparr>) = (r, w1)"
          by (cases "persistState E reg' (w\<lparr>proto_logOffset := pl'\<rparr>)")
        have s1: "state_file w1 = state_file w \<or> state_file w1 = reg'"
          using persistState_state_file [of E reg' "w\<lparr>proto_logOffset := pl'\<rparr>"] p
          by (simp split: if_splits)
        have "state_file (snd (read_managed_process_logs E nm l t f w)) = state_file w1"
          using f off Some True s p
          by (cases r)
             (simp_all add: read_managed_process_logs_def Let_def loadState_def
                tail_logs_state_file del: set_logOffset.simps)
        moreover have "reg' = fst (set_logOffset (state_file w, proto_logOffset w) nm ?n)"
          using s by simp
        ultimately show ?thesis using s1 f by auto
      qed
    qed
  qed
qed

lemma run_step: "reg_step op (state_file w) (state_file (run E op w))"
proof (cases op)
  case GetManaged
  then show ?thesis
    using runPm2_state_file [of E "plain ''pm2 jlist''" w]
    by (auto simp: get_managed_processes_def Let_def split: prod.splits)
next
  case (GetPm2Status x)
  then show ?thesis
    using runPm2_state_file [of E "plain ''pm2 jlist''" w]
    by (auto simp: get_pm2_status_def split: prod.splits sum.splits option.splits)
next
  case (Describe x)
  then show ?thesis
    by (simp add: describe_managed_process_def describePm2Process_def runPm2_state_file)
next
  case (Stop x)
  then show ?thesis by (simp add: stop_managed_process_def stopPm2Process_state_file)
next
  case (Register p s)
  then show ?thesis using register_step [of p s w E] by (simp del: reg_step.simps)
next
  case (Update nm u a)
  then show ?thesis using update_step [of nm u a w E] by (simp del: reg_step.simps)
next
  case (Start nm)
  then show ?thesis using start_step [of nm w E] by (simp del: reg_step.simps)
next
  case (Restart nm)
  then show ?thesis using restart_step [of nm w E] by (simp del: reg_step.simps)
next
  case (Delete nm d)
  then show ?thesis using delete_step [of nm d w E] by (simp del: reg_step.simps)
next
  case (ReadLogs nm l t f)
  then show ?thesis using read_logs_step [of nm l t f w E] by (simp del: reg_step.simps)
qed

lemma keyed_assign: "keyed_by_name reg \<Longrightarrow> name c = Some k \<Longrightarrow> keyed_by_name (assign reg k c)"
  by (simp add: keyed_by_name_def assign_def)

lemma keyed_set_logOffset:
  "keyed_by_name reg \<Longrightarrow> keyed_by_name (fst (set_logOffset (reg, pl) k n))"
  by (auto simp: keyed_by_name_def lookup_def split: option.splits looked.splits if_splits)

lemma reg_step_keyed: "keyed_by_name r \<Longrightarrow> reg_step op r r' \<Longrightarrow> keyed_by_name r'"
proof (cases op)
  case (Register p s)
  assume "keyed_by_name r" "reg_step op r r'"
  then show ?thesis using Register keyed_assign [of r "config_of p" "p_name p"]
    by (auto simp: config_of_def)
next
  case (Update nm u a)
  assume "keyed_by_name r" "reg_step op r r'"
  then show ?thesis using Update keyed_assign [of r "merge _ u nm" nm]
    by (auto simp: merge_def)
next
  case (Delete nm d)
  assume "keyed_by_name r" "reg_step op r r'"
  then show ?thesis using Delete by (auto simp: keyed_by_name_def split: if_splits)
next
  case (Start nm)
  assume "keyed_by_name r" "reg_step op r r'"
  then show ?thesis using Start keyed_set_logOffset [of r _ nm]
    by (auto simp del: set_logOffset.simps)
next
  case (Restart nm)
  assume "keyed_by_name r" "reg_step op r r'"
  then show ?thesis using Restart keyed_set_logOffset [of r _ nm]
    by (auto simp del: set_logOffset.simps)
next
  case (ReadLogs nm l t f)
  assume "keyed_by_name r" "reg_step op r r'"
  then show ?thesis using ReadLogs keyed_set_logOffset [of r _ nm]
    by (auto simp del: set_logOffset.simps)
qed simp_all

lemma run_all_keyed:
  "keyed_by_name (state_file w) \<Longrightarrow> keyed_by_name (state_file (run_all E ops w))"
proof (induction ops arbitrary: w)
  case Nil
  then show ?case by simp
next
  case (Cons op ops)
  have "keyed_by_name (state_file (run E op w))"
    using Cons.prems run_step [of op w E] by (rule reg_step_keyed)
  then show ?case using Cons.IH by simp
qed

text \<open>
  Claim C10. From the empty registry, after any sequence of register, update and delete
  calls (in any environment, whether the calls return or throw), every entry of the
  registry in the state file is stored under its own \<^verbatim>\<open>name\<close>.
\<close>

theorem registry_keyed_by_name:
  assumes "\<forall>op \<in> set ops. is_registry_op op" and "state_file w = Map.empty"
  shows "state_file (run_all E ops w) k = Some c \<longrightarrow> name c = Some k"
proof -
  have "keyed_by_name (state_file w)" using assms(2) by (simp add: keyed_by_name_def)
  then have "keyed_by_name (state_file (run_all E ops w))" by (rule run_all_keyed)
  then show ?thesis by (simp add: keyed_by_name_def)
qed

lemmas tool_simps = register_managed_process_def update_managed_process_def
  delete_managed_process_def start_managed_process_def read_managed_process_logs_def
  persistState_def loadState_def assign_def lookup_def object_prototype_keys_def
  merge_def over_def no_update_def web_params_def capture_offset_def getPm2LogPath_def
  member_name_def Let_def

theorem registry_keyed_by_name_witness:
  "is_registry_op (Register web_params True) \<and>
   is_registry_op (Update ''web'' (no_update\<lparr>u_env := Some [(''PORT'', ''4000'')]\<rparr>) False) \<and>
   is_registry_op (Delete ''api'' True) \<and>
   state_file (demo_world Map.empty [] None) = Map.empty \<and>
   state_file (run_all demo_env
       [Register web_params True,
        Update ''web'' (no_update\<lparr>u_env := Some [(''PORT'', ''4000'')]\<rparr>) False,
        Delete ''api'' True] (demo_world Map.empty [] None)) ''web''
     = Some (web_config\<lparr>env := Some [(''PORT'', ''4000'')]\<rparr>) \<and>
   name (web_config\<lparr>env := Some [(''PORT'', ''4000'')]\<rparr>) = Some ''web''"
proof -
  have a: "\<forall>op \<in> set [Register web_params True,
                   Update ''web'' (no_update\<lparr>u_env := Some [(''PORT'', ''4000'')]\<rparr>) False,
                   Delete ''api'' True]. is_registry_op op" by simp
  have b: "state_file (demo_world Map.empty [] None) = Map.empty" by (simp add: demo_world_def)
  have c: "state_file (run_all demo_env
       [Register web_params True,
        Update ''web'' (no_update\<lparr>u_env := Some [(''PORT'', ''4000'')]\<rparr>) False,
        Delete ''api'' True] (demo_world Map.empty [] None)) ''web''
     = Some (web_config\<lparr>env := Some [(''PORT'', ''4000'')]\<rparr>)"
    by (simp add: demo_simps tool_simps)
  show ?thesis
    using registry_keyed_by_name [OF a b, of demo_env "''web''"
        "web_config\<lparr>env := Some [(''PORT'', ''4000'')]\<rparr>"] a b c
    by simp
qed

section \<open>The log offset\<close>

lemma set_logOffset_other:
  "k \<noteq> nm \<Longrightarrow> fst (set_logOffset (r, pl) nm n) k = r k"
  by (simp add: lookup_def split: option.splits looked.splits)

lemma reg_step_offset:
  assumes "reg_step op r r'" and "r k = Some c" and "\<not> touches_offset op k"
  shows "case r' k of None \<Rightarrow> (\<exists>d. op = Delete k d) | Some c' \<Rightarrow> logOffset c' = logOffset c"
proof (cases op)
  case (Register p s)
  then show ?thesis using assms by (auto simp: assign_def)
next
  case (Update nm u a)
  then show ?thesis using assms
    by (cases "k = nm") (auto simp: assign_def lookup_def merge_def)
next
  case (Delete nm d)
  then show ?thesis using assms by auto
next
  case (Start nm)
  then show ?thesis using assms set_logOffset_other [of k nm r]
    by (auto simp del: set_logOffset.simps)
next
  case (Restart nm)
  then show ?thesis using assms set_logOffset_other [of k nm r]
    by (auto simp del: set_logOffset.simps)
next
  case (ReadLogs nm l t f)
  then show ?thesis using assms set_logOffset_other [of k nm r]
    by (auto simp del: set_logOffset.simps)
qed (use assms in simp_all)

text \<open>
  Claim C6, as the code has it. The \<^verbatim>\<open>logOffset\<close> of a registry entry is written by a
  start, a restart and a fresh-only log read of its name (the read advances it), and a
  registration under its name replaces the entry by one without an offset. Every other
  call leaves the entry's \<^verbatim>\<open>logOffset\<close> as it was, or is the delete that removes the entry.
\<close>

theorem logOffset_frame:
  "state_file w k = Some c \<Longrightarrow> \<not> touches_offset op k \<Longrightarrow>
   (case state_file (run E op w) k of
      None \<Rightarrow> (\<exists>d. op = Delete k d)
    | Some c' \<Rightarrow> logOffset c' = logOffset c)"
  using run_step [of op w E] by (rule reg_step_offset)

theorem logOffset_frame_witness:
  "state_file (demo_world [''web'' \<mapsto> web_config\<lparr>logOffset := Some 2\<rparr>] ''o'' (Some ''hello'')) ''web''
     = Some (web_config\<lparr>logOffset := Some 2\<rparr>) \<and>
   state_file (run demo_env (Update ''web'' (no_update\<lparr>u_env := Some [(''PORT'', ''4000'')]\<rparr>) True)
       (demo_world [''web'' \<mapsto> web_config\<lparr>logOffset := Some 2\<rparr>] ''o'' (Some ''hello''))) ''web''
     = Some (web_config\<lparr>logOffset := Some 2, env := Some [(''PORT'', ''4000'')]\<rparr>) \<and>
   logOffset (web_config\<lparr>logOffset := Some 2, env := Some [(''PORT'', ''4000'')]\<rparr>)
     = logOffset (web_config\<lparr>logOffset := Some 2\<rparr>)"
proof -
  have a: "state_file (demo_world [''web'' \<mapsto> web_config\<lparr>logOffset := Some 2\<rparr>] ''o'' (Some ''hello'')) ''web''
     = Some (web_config\<lparr>logOffset := Some 2\<rparr>)" by (simp add: demo_world_def)
  have b: "\<not> touches_offset (Update ''web'' (no_update\<lparr>u_env := Some [(''PORT'', ''4000'')]\<rparr>) True) ''web''"
    by simp
  have c: "state_file (run demo_env (Update ''web'' (no_update\<lparr>u_env := Some [(''PORT'', ''4000'')]\<rparr>) True)
       (demo_world [''web'' \<mapsto> web_config\<lparr>logOffset := Some 2\<rparr>] ''o'' (Some ''hello''))) ''web''
     = Some (web_config\<lparr>logOffset := Some 2, env := Some [(''PORT'', ''4000'')]\<rparr>)"
    by (simp add: demo_simps tool_simps)
  show ?thesis using logOffset_frame [OF a b, of demo_env] a c by simp
qed

text \<open>A fresh-only log read is neither a start nor a restart, and it moves the offset of
  the entry from 2 to 5 on a log of five bytes.\<close>

theorem logOffset_changed_by_fresh_read:
  "state_file (demo_world [''web'' \<mapsto> web_config\<lparr>logOffset := Some 2\<rparr>] ''o'' (Some ''hello'')) ''web''
     = Some (web_config\<lparr>logOffset := Some 2\<rparr>) \<and>
   state_file (run demo_env (ReadLogs ''web'' 50 All True)
       (demo_world [''web'' \<mapsto> web_config\<lparr>logOffset := Some 2\<rparr>] ''o'' (Some ''hello''))) ''web''
     = Some (web_config\<lparr>logOffset := Some 5\<rparr>)"
  by (simp add: demo_simps tool_simps)

section \<open>Delete, start and update on names outside the registry\<close>

lemma delete_result:
  "fst (delete_managed_process E nm d w)
     = (if writable E (ext (if d then deletePm2Process E nm w else w))
        then Inr (''Server '' @ quoted nm @ '' deleted'' @ (if d then '' and stopped'' else []))
        else Inl WriteFailed)"
  by (simp add: delete_managed_process_def persistState_def Let_def)

text \<open>
  Claim C8. When the state file can be written, \<^verbatim>\<open>delete-managed-process\<close> returns success
  for every name, every registry and every answer of the supervisor (a failing
  \<^verbatim>\<open>pm2 delete\<close> is swallowed), and the registry written has no entry of that name.
\<close>

theorem delete_always_succeeds:
  "writable E (ext (if d then deletePm2Process E nm w else w)) \<Longrightarrow>
   fst (delete_managed_process E nm d w)
     = Inr (''Server '' @ quoted nm @ '' deleted'' @ (if d then '' and stopped'' else [])) \<and>
   state_file (snd (delete_managed_process E nm d w)) = (state_file w)(nm := None) \<and>
   state_file (snd (delete_managed_process E nm d w)) nm = None"
  by (simp add: delete_result delete_state_file)

theorem delete_always_succeeds_witness:
  "writable demo_env (ext (deletePm2Process demo_env ''ghost'' (demo_world Map.empty [] None))) \<and>
   fst (runPm2 demo_env (plain ''pm2 delete ghost'') (demo_world Map.empty [] None))
     = Inl (ExecFailed ''pm2 delete ghost'') \<and>
   fst (delete_managed_process demo_env ''ghost'' True (demo_world Map.empty [] None))
     = Inr (''Server '' @ quoted ''ghost'' @ '' deleted and stopped'') \<and>
   state_file (snd (delete_managed_process demo_env ''ghost'' True (demo_world Map.empty [] None))) ''ghost''
     = None"
proof -
  have a: "writable demo_env (ext (if True then deletePm2Process demo_env ''ghost'' (demo_world Map.empty [] None)
                                   else demo_world Map.empty [] None))"
    by (simp add: demo_simps)
  have b: "fst (runPm2 demo_env (plain ''pm2 delete ghost'') (demo_world Map.empty [] None))
     = Inl (ExecFailed ''pm2 delete ghost'')"
    by (simp add: demo_simps)
  show ?thesis using delete_always_succeeds [OF a] a b by simp
qed

text \<open>
  Claim C3 asks that a start of a name absent from the registry fails as not registered
  and calls no supervisor command. The guard \<^verbatim>\<open>if (!config)\<close> reads
  \<^verbatim>\<open>managedProcesses[name]\<close> through the prototype chain: on the empty registry the name
  \<^verbatim>\<open>constructor\<close> finds the function \<^verbatim>\<open>Object\<close>, the guard passes, and the supervisor is
  asked for its list and then to start a process named \<^verbatim>\<open>Object\<close> with no script.
\<close>

theorem start_constructor_not_rejected:
  "start_managed_process demo_env ''constructor'' (demo_world Map.empty [] None)
     = (Inl (ExecFailed ''pm2 start  --name Object --no-autorestart''),
        (demo_world Map.empty [] None)
          \<lparr>trace := [Pm2 (plain ''pm2 jlist''),
                      Pm2 (plain ''pm2 start  --name Object --no-autorestart'')]\<rparr>)"
  by (simp add: demo_simps tool_simps)

lemma start_unregistered:
  "state_file w nm = None \<Longrightarrow> nm \<notin> set object_prototype_keys \<Longrightarrow>
   start_managed_process E nm w = (Inl (NotRegistered nm), w)"
  by (simp add: start_managed_process_def loadState_def lookup_def)

lemma runPm2_error: "fst (runPm2 E c w) = Inl e \<Longrightarrow> e = ExecFailed (command c)"
  by (auto simp: runPm2_def split: prod.splits option.splits)

lemma startPm2Process_error:
  "fst (startPm2Process E c w) = Inl e \<Longrightarrow> \<exists>s. e = ExecFailed s"
proof -
  assume a: "fst (startPm2Process E c w) = Inl e"
  obtain existing w1 where q: "getPm2ProcessInfo E (name c) w = (existing, w1)"
    by (cases "getPm2ProcessInfo E (name c) w")
  have cr: "fst (case runPm2 E x v of (Inl e, w3) \<Rightarrow> (Inl e, w3) | (Inr out, w3) \<Rightarrow> (Inr (), w3)) = Inl e
            \<Longrightarrow> \<exists>s. e = ExecFailed s" for x v
    using runPm2_error [of E x v e] by (auto split: prod.splits sum.splits)
  have rs: "fst (case restartPm2Process E x v of (Inl e, w2) \<Rightarrow> (Inl e, w2) | (Inr out, w2) \<Rightarrow> (Inr (), w2)) = Inl e
            \<Longrightarrow> \<exists>s. e = ExecFailed s" for x v
    using runPm2_error [of E "plain (''pm2 restart '' @ x)" v e]
    by (auto simp: restartPm2Process_def split: prod.splits sum.splits)
  show ?thesis
  proof (cases existing)
    case None
    then show ?thesis using a q cr [of "start_call c" w1] by (simp add: startPm2Process_def)
  next
    case (Some p)
    then show ?thesis
      using a q cr [of "start_call c" "deletePm2Process E (tmpl (name c)) w1"] rs [of "tmpl (name c)" w1]
      by (simp add: startPm2Process_def split: if_splits)
  qed
qed

lemma startPm2Process_trace:
  "\<exists>rest. trace (snd (startPm2Process E c w)) = trace w @ Pm2 (plain ''pm2 jlist'') # rest"
proof -
  obtain existing w1 where q: "getPm2ProcessInfo E (name c) w = (existing, w1)"
    by (cases "getPm2ProcessInfo E (name c) w")
  show ?thesis
  proof (cases existing)
    case None
    then show ?thesis using q start_none [of E c w w1] by simp
  next
    case (Some p)
    then show ?thesis
      using q getPm2ProcessInfo_trace [of E "name c" w] start_online [of E c w p w1]
        start_stopped [of E c w p w1] start_other [of E c w p w1]
      by (cases "pstatus p = Some ''online''"; cases "pstatus p = Some ''stopped''") auto
  qed
qed

lemma capture_offset_trace:
  "\<exists>more. trace (capture_offset E reg nm w) = trace w @ more"
  by (auto simp: capture_offset_def persistState_trace split: option.splits prod.splits
      simp del: set_logOffset.simps)

lemma start_inherited_name:
  assumes "state_file w nm = None" and "nm \<in> set object_prototype_keys"
  shows "fst (start_managed_process E nm w) \<noteq> Inl (NotRegistered nm) \<and>
         (\<exists>rest. trace (snd (start_managed_process E nm w))
                  = trace w @ Pm2 (plain ''pm2 jlist'') # rest)"
proof -
  have l: "lookup (state_file w) nm = Inherited nm" using assms by (simp add: lookup_def)
  define c where "c = as_config (Inherited nm)"
  obtain r w1 where q: "startPm2Process E c w = (r, w1)" by (cases "startPm2Process E c w")
  obtain rest where t1: "trace w1 = trace w @ Pm2 (plain ''pm2 jlist'') # rest"
    using startPm2Process_trace [of E c w] q by auto
  show ?thesis
  proof (cases r)
    case (Inl e)
    have "start_managed_process E nm w = (Inl e, w1)"
      unfolding start_managed_process_def Let_def loadState_def l
      using q Inl by (simp add: c_def)
    moreover have "\<exists>s. e = ExecFailed s"
      using startPm2Process_error [of E c w e] q Inl by simp
    ultimately show ?thesis using t1 by auto
  next
    case (Inr u)
    define w2 where "w2 = capture_offset E (state_file w) nm (w1\<lparr>ext := wait E 500 (ext w1)\<rparr>)"
    define w3 where "w3 = w2\<lparr>ext := wait E 2000 (ext w2)\<rparr>"
    obtain r4 w4 where g: "runPm2 E (plain (''pm2 logs '' @ nm @ '' --lines 100 --nostream'')) w3 = (r4, w4)"
      by (cases "runPm2 E (plain (''pm2 logs '' @ nm @ '' --lines 100 --nostream'')) w3")
    obtain more where t2: "trace w2 = trace w1 @ more"
      using capture_offset_trace [of E "state_file w" nm "w1\<lparr>ext := wait E 500 (ext w1)\<rparr>"]
      by (auto simp: w2_def)
    have t4: "trace w4 = trace w3 @ [Pm2 (plain (''pm2 logs '' @ nm @ '' --lines 100 --nostream''))]"
      using runPm2_trace [of E "plain (''pm2 logs '' @ nm @ '' --lines 100 --nostream'')" w3] g by simp
    have t3: "trace w3 = trace w2" by (simp add: w3_def)
    have "snd (start_managed_process E nm w) = w4 \<and> (\<exists>text. fst (start_managed_process E nm w) = Inr text)"
      unfolding start_managed_process_def Let_def loadState_def l
      using q Inr g
      by (cases r4) (simp_all add: c_def w2_def [symmetric] w3_def [symmetric])
    then show ?thesis using t1 t2 t3 t4 by auto
  qed
qed

text \<open>
  Claim C5 asks that an update of an unregistered name fails. By the same read through
  the prototype chain, an update of \<^verbatim>\<open>constructor\<close> on the empty registry returns success
  and writes a new entry made of the supplied fields and the name. (On a registered name
  the update does what the claim says: \<open>update_registered\<close> and \<open>merge_fields\<close> below.)
\<close>

theorem update_constructor_not_rejected:
  "update_managed_process demo_env ''constructor''
      (no_update\<lparr>u_env := Some [(''PORT'', ''4000'')]\<rparr>) False (demo_world Map.empty [] None)
     = (Inr (no_config\<lparr>name := Some ''constructor'', env := Some [(''PORT'', ''4000'')]\<rparr>),
        (demo_world [''constructor'' \<mapsto>
             no_config\<lparr>name := Some ''constructor'', env := Some [(''PORT'', ''4000'')]\<rparr>] [] None)
          \<lparr>trace := [WriteState]\<rparr>)"
  by (simp add: demo_simps tool_simps)

lemma update_unregistered:
  "state_file w nm = None \<Longrightarrow> nm \<notin> set object_prototype_keys \<Longrightarrow>
   update_managed_process E nm u a w = (Inl (NotRegistered nm), w)"
  by (simp add: update_managed_process_def loadState_def lookup_def)

lemma update_registered:
  assumes "state_file w nm = Some c" and "writable E (ext w)"
  shows "state_file (snd (update_managed_process E nm u a w)) = (state_file w)(nm \<mapsto> merge c u nm) \<and>
         update_managed_process E nm u False w
           = (Inr (merge c u nm),
              w\<lparr>trace := trace w @ [WriteState], state_file := (state_file w)(nm \<mapsto> merge c u nm)\<rparr>) \<and>
         snd (update_managed_process E nm u True w)
           = snd (startPm2Process E (merge c u nm)
                   (deletePm2Process E nm
                     (w\<lparr>trace := trace w @ [WriteState],
                        state_file := (state_file w)(nm \<mapsto> merge c u nm)\<rparr>)))"
proof -
  define w1 where "w1 = w\<lparr>trace := trace w @ [WriteState],
                          state_file := (state_file w)(nm \<mapsto> merge c u nm)\<rparr>"
  have l: "lookup (state_file w) nm = Own c" using assms by (simp add: lookup_def)
  have as: "assign (state_file w) nm (merge c u nm) = (state_file w)(nm \<mapsto> merge c u nm)"
    using assms by (simp add: assign_def)
  have p: "persistState E ((state_file w)(nm \<mapsto> merge c u nm)) w = (Inr (), w1)"
    using assms by (simp add: persistState_def Let_def w1_def)
  have f: "update_managed_process E nm u False w = (Inr (merge c u nm), w1)"
    by (simp add: update_managed_process_def Let_def loadState_def l as p)
  obtain r2 w2 where q: "startPm2Process E (merge c u nm) (deletePm2Process E nm w1) = (r2, w2)"
    by (cases "startPm2Process E (merge c u nm) (deletePm2Process E nm w1)")
  have t: "snd (update_managed_process E nm u True w) = w2"
    using q by (cases r2) (simp_all add: update_managed_process_def Let_def loadState_def l as p)
  have s2: "state_file w2 = state_file w1"
    using startPm2Process_state_file [of E "merge c u nm" "deletePm2Process E nm w1"] q
    by (simp add: deletePm2Process_state_file)
  have "state_file (snd (update_managed_process E nm u a w)) = state_file w1"
    using f t s2 by (cases a) simp_all
  then show ?thesis using f t q by (simp add: w1_def)
qed

lemma merge_fields:
  "name (merge c u nm) = Some nm \<and> logOffset (merge c u nm) = logOffset c \<and>
   script (merge c u nm) = (case u_script u of Some v \<Rightarrow> Some v | None \<Rightarrow> script c) \<and>
   cwd (merge c u nm) = (case u_cwd u of Some v \<Rightarrow> Some v | None \<Rightarrow> cwd c) \<and>
   args (merge c u nm) = (case u_args u of Some v \<Rightarrow> Some v | None \<Rightarrow> args c) \<and>
   env (merge c u nm) = (case u_env u of Some v \<Rightarrow> Some v | None \<Rightarrow> env c) \<and>
   interpreter (merge c u nm) = (case u_interpreter u of Some v \<Rightarrow> Some v | None \<Rightarrow> interpreter c) \<and>
   instances (merge c u nm) = (case u_instances u of Some v \<Rightarrow> Some v | None \<Rightarrow> instances c) \<and>
   watch (merge c u nm) = (case u_watch u of Some v \<Rightarrow> Some v | None \<Rightarrow> watch c) \<and>
   autorestart (merge c u nm) = (case u_autorestart u of Some v \<Rightarrow> Some v | None \<Rightarrow> autorestart c)"
  by (simp add: merge_def over_def)

lemma update_port_example:
  "state_file w nm = Some c \<Longrightarrow> writable E (ext w) \<Longrightarrow>
   \<exists>c'. state_file (snd (update_managed_process E nm
                 (no_update\<lparr>u_env := Some [(''PORT'', ''4000'')]\<rparr>) True w)) nm = Some c'
        \<and> env c' = Some [(''PORT'', ''4000'')]"
proof -
  assume "state_file w nm = Some c" and "writable E (ext w)"
  then have "state_file (snd (update_managed_process E nm
                 (no_update\<lparr>u_env := Some [(''PORT'', ''4000'')]\<rparr>) True w)) nm
               = Some (merge c (no_update\<lparr>u_env := Some [(''PORT'', ''4000'')]\<rparr>) nm)"
    using update_registered [of w nm c E "no_update\<lparr>u_env := Some [(''PORT'', ''4000'')]\<rparr>" True,
        THEN conjunct1]
    by simp
  moreover have "env (merge c (no_update\<lparr>u_env := Some [(''PORT'', ''4000'')]\<rparr>) nm)
                   = Some [(''PORT'', ''4000'')]"
    by (simp add: merge_def over_def)
  ultimately show ?thesis by blast
qed

section \<open>Fresh-only log reads\<close>

lemma fresh_read_nofile:
  assumes "state_file w nm = Some c" and "logOffset c = Some off"
    and "read_file E (ext w) (getPm2LogPath E nm (if ty = Error then Error else Out)) = None"
  shows "read_managed_process_logs E nm lines ty True w = tail_logs E nm lines ty w"
  using assms by (simp add: read_managed_process_logs_def Let_def loadState_def lookup_def)

lemma fresh_read_none:
  assumes "state_file w nm = Some c" and "logOffset c = Some off"
    and "read_file E (ext w) (getPm2LogPath E nm (if ty = Error then Error else Out)) = Some bytes"
    and "int (length bytes) - int off \<le> 0"
  shows "read_managed_process_logs E nm lines ty True w
           = (Inr (Plain ''(no new logs since last restart)'', True), w)"
  using assms by (simp add: read_managed_process_logs_def Let_def loadState_def lookup_def)

lemma fresh_read_some:
  assumes "state_file w nm = Some c" and "logOffset c = Some off"
    and "read_file E (ext w) (getPm2LogPath E nm (if ty = Error then Error else Out)) = Some bytes"
    and "0 < int (length bytes) - int off" and "writable E (ext w)"
  shows "read_managed_process_logs E nm lines ty True w
           = (Inr (Utf8 (take (nat (min (int (length bytes) - int off) (1024 * 1024))) (drop off bytes)),
                   True),
              w\<lparr>trace := trace w @ [WriteState],
                state_file := (state_file w)(nm \<mapsto>
                  c\<lparr>logOffset := Some (off + nat (min (int (length bytes) - int off) (1024 * 1024)))\<rparr>)\<rparr>)"
  using assms
  by (simp add: read_managed_process_logs_def Let_def loadState_def lookup_def persistState_def)

lemma fresh_read_unwritable:
  assumes "state_file w nm = Some c" and "logOffset c = Some off"
    and "read_file E (ext w) (getPm2LogPath E nm (if ty = Error then Error else Out)) = Some bytes"
    and "0 < int (length bytes) - int off" and "\<not> writable E (ext w)"
  shows "read_managed_process_logs E nm lines ty True w
           = tail_logs E nm lines ty (w\<lparr>trace := trace w @ [WriteState]\<rparr>)"
  using assms
  by (simp add: read_managed_process_logs_def Let_def loadState_def lookup_def persistState_def)

lemma take_drop_append:
  "take a (drop off xs) @ take b (drop (off + a) xs) = take (a + b) (drop off xs)"
  if "off + a \<le> length xs"
proof -
  have "take (a + b) (drop off xs) = take a (drop off xs) @ take b (drop a (drop off xs))"
    by (simp add: take_add)
  then show ?thesis by (simp add: add.commute)
qed

text \<open>
  Claim C2. A fresh-only read of a name whose entry has an offset recorded. When the log
  file cannot be opened the answer is the tail of \<^verbatim>\<open>pm2 logs\<close>. When it can: with no byte
  beyond the offset the answer is the text \<^verbatim>\<open>(no new logs since last restart)\<close> and nothing
  changes; otherwise the buffer read holds exactly \<open>min (size - offset) 1MB\<close> bytes, those
  from the offset on. If the state file can then be written, the answer is the UTF-8
  decoding of that buffer and the offset stored grows by the number of bytes read; if it
  cannot, the answer is the tail of \<^verbatim>\<open>pm2 logs\<close> instead. A second fresh-only read on the
  entry so left decodes the bytes from where the first buffer ended; on a log that has
  only grown, the two buffers are one contiguous stretch of the file, with no byte twice.
\<close>

theorem fresh_read_incremental:
  assumes e: "state_file w nm = Some c" and o: "logOffset c = Some off"
  shows
    "(read_file E (ext w) (getPm2LogPath E nm (if ty = Error then Error else Out)) = None \<longrightarrow>
        read_managed_process_logs E nm lines ty True w = tail_logs E nm lines ty w) \<and>
     (\<forall>bytes.
        read_file E (ext w) (getPm2LogPath E nm (if ty = Error then Error else Out)) = Some bytes \<longrightarrow>
        (int (length bytes) - int off \<le> 0 \<longrightarrow>
           read_managed_process_logs E nm lines ty True w
             = (Inr (Plain ''(no new logs since last restart)'', True), w)) \<and>
        (0 < int (length bytes) - int off \<longrightarrow>
           (let readSize = nat (min (int (length bytes) - int off) (1024 * 1024));
                buffer = take readSize (drop off bytes)
            in length buffer = readSize \<and>
               (\<not> writable E (ext w) \<longrightarrow>
                  read_managed_process_logs E nm lines ty True w
                    = tail_logs E nm lines ty (w\<lparr>trace := trace w @ [WriteState]\<rparr>)) \<and>
               (writable E (ext w) \<longrightarrow>
                  read_managed_process_logs E nm lines ty True w
                    = (Inr (Utf8 buffer, True),
                       w\<lparr>trace := trace w @ [WriteState],
                         state_file := (state_file w)(nm \<mapsto> c\<lparr>logOffset := Some (off + readSize)\<rparr>)\<rparr>) \<and>
                  (\<forall>w2 bytes2.
                     state_file w2 nm = Some (c\<lparr>logOffset := Some (off + readSize)\<rparr>) \<longrightarrow>
                     read_file E (ext w2) (getPm2LogPath E nm (if ty = Error then Error else Out))
                       = Some bytes2 \<longrightarrow>
                     0 < int (length bytes2) - int (off + readSize) \<longrightarrow> writable E (ext w2) \<longrightarrow>
                     (let readSize2 = nat (min (int (length bytes2) - int (off + readSize)) (1024 * 1024));
                          buffer2 = take readSize2 (drop (off + readSize) bytes2)
                      in fst (read_managed_process_logs E nm lines ty True w2)
                           = Inr (Utf8 buffer2, True) \<and>
                         (\<forall>more. bytes2 = bytes @ more \<longrightarrow>
                            buffer @ buffer2 = take (readSize + readSize2) (drop off bytes2))))))))"
proof (intro conjI allI impI)
  assume "read_file E (ext w) (getPm2LogPath E nm (if ty = Error then Error else Out)) = None"
  with e o show "read_managed_process_logs E nm lines ty True w = tail_logs E nm lines ty w"
    by (rule fresh_read_nofile)
next
  fix bytes
  assume f: "read_file E (ext w) (getPm2LogPath E nm (if ty = Error then Error else Out)) = Some bytes"
    and "int (length bytes) - int off \<le> 0"
  with e o show "read_managed_process_logs E nm lines ty True w
             = (Inr (Plain ''(no new logs since last restart)'', True), w)"
    by (rule fresh_read_none)
next
  fix bytes
  assume f: "read_file E (ext w) (getPm2LogPath E nm (if ty = Error then Error else Out)) = Some bytes"
    and pos: "0 < int (length bytes) - int off"
  define readSize where "readSize = nat (min (int (length bytes) - int off) (1024 * 1024))"
  define buffer where "buffer = take readSize (drop off bytes)"
  have le: "off + readSize \<le> length bytes" using pos by (simp add: readSize_def)
  have len: "length buffer = readSize" using le by (simp add: buffer_def)
  have unw: "read_managed_process_logs E nm lines ty True w
                    = tail_logs E nm lines ty (w\<lparr>trace := trace w @ [WriteState]\<rparr>)"
    if "\<not> writable E (ext w)"
    using e o f pos that by (rule fresh_read_unwritable)
  have first: "read_managed_process_logs E nm lines ty True w
                    = (Inr (Utf8 buffer, True),
                       w\<lparr>trace := trace w @ [WriteState],
                         state_file := (state_file w)(nm \<mapsto> c\<lparr>logOffset := Some (off + readSize)\<rparr>)\<rparr>)"
    if "writable E (ext w)"
    unfolding buffer_def readSize_def using e o f pos that by (rule fresh_read_some)
  have second: "fst (read_managed_process_logs E nm lines ty True w2)
         = Inr (Utf8 (take (nat (min (int (length bytes2) - int (off + readSize)) (1024 * 1024)))
                  (drop (off + readSize) bytes2)), True)"
    if e2: "state_file w2 nm = Some (c\<lparr>logOffset := Some (off + readSize)\<rparr>)"
      and f2: "read_file E (ext w2) (getPm2LogPath E nm (if ty = Error then Error else Out)) = Some bytes2"
      and pos2: "0 < int (length bytes2) - int (off + readSize)"
      and wr2: "writable E (ext w2)"
    for w2 :: "'a world" and bytes2
  proof -
    have o2: "logOffset (c\<lparr>logOffset := Some (off + readSize)\<rparr>) = Some (off + readSize)" by simp
    show ?thesis using fresh_read_some [OF e2 o2 f2 pos2 wr2, of lines] by simp
  qed
  have ap: "buffer @ take k (drop (off + readSize) bytes2) = take (readSize + k) (drop off bytes2)"
    if "bytes2 = bytes @ more" for more k bytes2
  proof -
    have "take readSize (drop off bytes) = take readSize (drop off (bytes @ more))"
      using le by simp
    then show ?thesis
      using take_drop_append [of off readSize "bytes @ more" k] le that by (simp add: buffer_def)
  qed
  show "let readSize = nat (min (int (length bytes) - int off) (1024 * 1024));
                buffer = take readSize (drop off bytes)
            in length buffer = readSize \<and>
               (\<not> writable E (ext w) \<longrightarrow>
                  read_managed_process_logs E nm lines ty True w
                    = tail_logs E nm lines ty (w\<lparr>trace := trace w @ [WriteState]\<rparr>)) \<and>
               (writable E (ext w) \<longrightarrow>
                  read_managed_process_logs E nm lines ty True w
                    = (Inr (Utf8 buffer, True),
                       w\<lparr>trace := trace w @ [WriteState],
                         state_file := (state_file w)(nm \<mapsto> c\<lparr>logOffset := Some (off + readSize)\<rparr>)\<rparr>) \<and>
                  (\<forall>w2 bytes2.
                     state_file w2 nm = Some (c\<lparr>logOffset := Some (off + readSize)\<rparr>) \<longrightarrow>
                     read_file E (ext w2) (getPm2LogPath E nm (if ty = Error then Error else Out))
                       = Some bytes2 \<longrightarrow>
                     0 < int (length bytes2) - int (off + readSize) \<longrightarrow> writable E (ext w2) \<longrightarrow>
                     (let readSize2 = nat (min (int (length bytes2) - int (off + readSize)) (1024 * 1024));
                          buffer2 = take readSize2 (drop (off + readSize) bytes2)
                      in fst (read_managed_process_logs E nm lines ty True w2)
                           = Inr (Utf8 buffer2, True) \<and>
                         (\<forall>more. bytes2 = bytes @ more \<longrightarrow>
                            buffer @ buffer2 = take (readSize + readSize2) (drop off bytes2)))))"
    unfolding Let_def readSize_def [symmetric] buffer_def [symmetric]
  proof (intro conjI allI impI)
    show "length buffer = readSize" by (rule len)
  next
    assume "\<not> writable E (ext w)"
    then show "read_managed_process_logs E nm lines ty True w
                    = tail_logs E nm lines ty (w\<lparr>trace := trace w @ [WriteState]\<rparr>)"
      by (rule unw)
  next
    assume "writable E (ext w)"
    then show "read_managed_process_logs E nm lines ty True w
                    = (Inr (Utf8 buffer, True),
                       w\<lparr>trace := trace w @ [WriteState],
                         state_file := (state_file w)(nm \<mapsto> c\<lparr>logOffset := Some (off + readSize)\<rparr>)\<rparr>)"
      by (rule first)
  next
    fix w2 :: "'a world" and bytes2
    assume "state_file w2 nm = Some (c\<lparr>logOffset := Some (off + readSize)\<rparr>)"
      and "read_file E (ext w2) (getPm2LogPath E nm (if ty = Error then Error else Out)) = Some bytes2"
      and "0 < int (length bytes2) - int (off + readSize)" and "writable E (ext w2)"
    then show "fst (read_managed_process_logs E nm lines ty True w2)
         = Inr (Utf8 (take (nat (min (int (length bytes2) - int (off + readSize)) (1024 * 1024)))
                  (drop (off + readSize) bytes2)), True)"
      by (rule second)
  next
    fix bytes2 more :: string
    assume "bytes2 = bytes @ more"
    then show "buffer @ take (nat (min (int (length bytes2) - int (off + readSize)) (1024 * 1024)))
               (drop (off + readSize) bytes2)
         = take (readSize + nat (min (int (length bytes2) - int (off + readSize)) (1024 * 1024)))
             (drop off bytes2)"
      by (rule ap)
  qed
qed

theorem fresh_read_incremental_witness:
  "read_managed_process_logs demo_env ''web'' 50 All True
       (demo_world [''web'' \<mapsto> web_config\<lparr>logOffset := Some 2\<rparr>] ''o'' (Some ''hello''))
     = (Inr (Utf8 ''llo'', True),
        (demo_world [''web'' \<mapsto> web_config\<lparr>logOffset := Some 5\<rparr>] ''o'' (Some ''hello''))
          \<lparr>trace := [WriteState]\<rparr>) \<and>
   fst (read_managed_process_logs demo_env ''web'' 50 All True
         (demo_world [''web'' \<mapsto> web_config\<lparr>logOffset := Some 5\<rparr>] ''o'' (Some ''hello world'')))
     = Inr (Utf8 '' world'', True) \<and>
   read_managed_process_logs demo_env ''web'' 50 All True
         (demo_world [''web'' \<mapsto> web_config\<lparr>logOffset := Some 5\<rparr>] ''o'' (Some ''hello''))
     = (Inr (Plain ''(no new logs since last restart)'', True),
        demo_world [''web'' \<mapsto> web_config\<lparr>logOffset := Some 5\<rparr>] ''o'' (Some ''hello'')) \<and>
   fst (read_managed_process_logs demo_env ''web'' 50 All True
         (demo_world [''web'' \<mapsto> web_config\<lparr>logOffset := Some 2\<rparr>] ''o''
            (Some [CHR 0x68, CHR 0xC3, CHR 0xA9, CHR 0x6C, CHR 0x6C, CHR 0x6F])))
     = Inr (Utf8 [CHR 0xA9, CHR 0x6C, CHR 0x6C, CHR 0x6F], True) \<and>
   read_managed_process_logs demo_env ''web'' 50 All True
         (demo_world [''web'' \<mapsto> web_config\<lparr>logOffset := Some 2\<rparr>] ''o'' None)
     = tail_logs demo_env ''web'' 50 All
         (demo_world [''web'' \<mapsto> web_config\<lparr>logOffset := Some 2\<rparr>] ''o'' None)"
proof -
  let ?A = "demo_world [''web'' \<mapsto> web_config\<lparr>logOffset := Some 2\<rparr>] ''o'' (Some ''hello'')"
  let ?B = "demo_world [''web'' \<mapsto> web_config\<lparr>logOffset := Some 5\<rparr>] ''o'' (Some ''hello world'')"
  let ?C = "demo_world [''web'' \<mapsto> web_config\<lparr>logOffset := Some 5\<rparr>] ''o'' (Some ''hello'')"
  let ?D = "demo_world [''web'' \<mapsto> web_config\<lparr>logOffset := Some 2\<rparr>] ''o''
            (Some [CHR 0x68, CHR 0xC3, CHR 0xA9, CHR 0x6C, CHR 0x6C, CHR 0x6F])"
  let ?N = "demo_world [''web'' \<mapsto> web_config\<lparr>logOffset := Some 2\<rparr>] ''o'' None"
  have e2: "state_file ?A ''web'' = Some (web_config\<lparr>logOffset := Some 2\<rparr>)"
    "state_file ?D ''web'' = Some (web_config\<lparr>logOffset := Some 2\<rparr>)"
    "state_file ?N ''web'' = Some (web_config\<lparr>logOffset := Some 2\<rparr>)"
    by (simp_all add: demo_world_def)
  have e5: "state_file ?C ''web'' = Some (web_config\<lparr>logOffset := Some 5\<rparr>)"
    "state_file ?B ''web'' = Some (web_config\<lparr>logOffset := Some 5\<rparr>)"
    by (simp_all add: demo_world_def)
  have o2: "logOffset (web_config\<lparr>logOffset := Some 2\<rparr>) = Some 2" by simp
  have o5: "logOffset (web_config\<lparr>logOffset := Some 5\<rparr>) = Some 5" by simp
  have files:
    "read_file demo_env (ext ?A) (getPm2LogPath demo_env ''web'' (if All = Error then Error else Out))
       = Some ''hello''"
    "read_file demo_env (ext ?B) (getPm2LogPath demo_env ''web'' (if All = Error then Error else Out))
       = Some ''hello world''"
    "read_file demo_env (ext ?C) (getPm2LogPath demo_env ''web'' (if All = Error then Error else Out))
       = Some ''hello''"
    "read_file demo_env (ext ?D) (getPm2LogPath demo_env ''web'' (if All = Error then Error else Out))
       = Some [CHR 0x68, CHR 0xC3, CHR 0xA9, CHR 0x6C, CHR 0x6C, CHR 0x6F]"
    "read_file demo_env (ext ?N) (getPm2LogPath demo_env ''web'' (if All = Error then Error else Out))
       = None"
    by (simp_all add: demo_env_def demo_world_def getPm2LogPath_def)
  have wr: "writable demo_env (ext ?A)" "writable demo_env (ext ?B)" "writable demo_env (ext ?D)"
    by (simp_all add: demo_env_def demo_world_def)
  note TA = fresh_read_incremental [OF e2(1) o2, of demo_env All 50]
  note TC = fresh_read_incremental [OF e5(1) o5, of demo_env All 50]
  note TD = fresh_read_incremental [OF e2(2) o2, of demo_env All 50]
  note TN = fresh_read_incremental [OF e2(3) o2, of demo_env All 50]
  have a: "read_managed_process_logs demo_env ''web'' 50 All True ?A
     = (Inr (Utf8 ''llo'', True),
        (demo_world [''web'' \<mapsto> web_config\<lparr>logOffset := Some 5\<rparr>] ''o'' (Some ''hello''))
          \<lparr>trace := [WriteState]\<rparr>)"
    using TA files(1) wr(1) by (simp add: Let_def demo_world_def)
  have b: "fst (read_managed_process_logs demo_env ''web'' 50 All True ?B) = Inr (Utf8 '' world'', True)"
    using TA files(1,2) wr(1,2) e5(2) by (simp add: Let_def)
  have c: "read_managed_process_logs demo_env ''web'' 50 All True ?C
     = (Inr (Plain ''(no new logs since last restart)'', True), ?C)"
    using TC files(3) by simp
  have d: "fst (read_managed_process_logs demo_env ''web'' 50 All True ?D)
     = Inr (Utf8 [CHR 0xA9, CHR 0x6C, CHR 0x6C, CHR 0x6F], True)"
    using TD files(4) wr(3) by (simp add: Let_def)
  have n: "read_managed_process_logs demo_env ''web'' 50 All True ?N = tail_logs demo_env ''web'' 50 All ?N"
    using TN files(5) by simp
  show ?thesis using a b c d n by blast
qed

section \<open>Endpoint discovery\<close>

lemma starts_with_iff: "starts_with s t \<longleftrightarrow> (\<exists>post. s = t @ post)"
proof
  assume "starts_with s t"
  then have "s = t @ drop (length t) s"
    unfolding starts_with_def by (metis append_take_drop_id)
  then show "\<exists>post. s = t @ post" ..
next
  assume "\<exists>post. s = t @ post"
  then show "starts_with s t" by (auto simp: starts_with_def)
qed

lemma str_includes_iff: "str_includes s t \<longleftrightarrow> (\<exists>pre post. s = pre @ t @ post)"
proof (induction s)
  case Nil
  then show ?case by auto
next
  case (Cons c s)
  show ?case
  proof
    assume "str_includes (c # s) t"
    then consider "starts_with (c # s) t" | "str_includes s t" by auto
    then show "\<exists>pre post. c # s = pre @ t @ post"
    proof cases
      case 1
      then obtain post where "c # s = t @ post" unfolding starts_with_iff ..
      then have "c # s = [] @ t @ post" by simp
      then show ?thesis by blast
    next
      case 2
      then obtain pre post where "s = pre @ t @ post" using Cons.IH by blast
      then have "c # s = (c # pre) @ t @ post" by simp
      then show ?thesis by blast
    qed
  next
    assume "\<exists>pre post. c # s = pre @ t @ post"
    then obtain pre post where e: "c # s = pre @ t @ post" by blast
    show "str_includes (c # s) t"
    proof (cases pre)
      case Nil
      then have "starts_with (c # s) t" using e unfolding starts_with_iff by auto
      then show ?thesis by simp
    next
      case (Cons a pre')
      then have "s = pre' @ t @ post" using e by simp
      then have "str_includes s t" using Cons.IH by blast
      then show ?thesis by simp
    qed
  qed
qed

lemma digit_not_sep: "is_digit c \<Longrightarrow> \<not> is_sep c"
  by (auto simp: is_digit_def is_sep_def)

lemma match_here_sound:
  assumes "match_here s = Some d"
  shows "\<exists>kw seps rest. s = kw @ seps @ d @ rest \<and> kw \<in> {''port'', ''Port'', ''PORT''} \<and>
           seps \<noteq> [] \<and> (\<forall>c \<in> set seps. is_sep c) \<and> (length d = 4 \<or> length d = 5) \<and>
           (\<forall>c \<in> set d. is_digit c) \<and> (length d = 4 \<longrightarrow> (\<forall>c r. rest = c # r \<longrightarrow> \<not> is_digit c))"
proof -
  define r where "r = drop 4 s"
  define seps where "seps = takeWhile is_sep r"
  define t where "t = dropWhile is_sep r"
  define ds where "ds = takeWhile is_digit t"
  define u where "u = dropWhile is_digit t"
  have kw: "take 4 s \<in> {''port'', ''Port'', ''PORT''}"
    using assms by (auto simp: match_here_def split: if_splits)
  have c: "seps \<noteq> []" "4 \<le> length ds" "d = take 5 ds"
    using assms kw
    by (auto simp: match_here_def Let_def r_def seps_def t_def ds_def split: if_splits)
  have s: "s = take 4 s @ seps @ take 5 ds @ (drop 5 ds @ u)"
  proof -
    have e: "take 5 ds @ (drop 5 ds @ u) = ds @ u" by (simp flip: append_assoc)
    have "ds @ u = t" by (simp add: ds_def u_def)
    moreover have "seps @ t = r" by (simp add: seps_def t_def)
    ultimately have "take 4 s @ seps @ ds @ u = take 4 s @ r" by simp
    also have "\<dots> = s" by (simp add: r_def)
    finally show ?thesis unfolding e by simp
  qed
  have sp: "\<forall>c \<in> set seps. is_sep c" using set_takeWhileD by (fastforce simp: seps_def)
  have dg: "\<forall>c \<in> set ds. is_digit c" using set_takeWhileD by (fastforce simp: ds_def)
  then have dd: "\<forall>c \<in> set d. is_digit c" using c(3) by (auto dest: in_set_takeD)
  have ln: "length d = 4 \<or> length d = 5" using c by auto
  have nx: "\<forall>c r. drop 5 ds @ u = c # r \<longrightarrow> \<not> is_digit c" if "length d = 4"
  proof -
    have "length ds = 4" using that c by auto
    then have "drop 5 ds = []" by simp
    moreover have "\<not> is_digit c" if "u = c # r" for c r
      using that hd_dropWhile [of is_digit t] by (auto simp: u_def)
    ultimately show ?thesis by auto
  qed
  show ?thesis using s kw c(1) sp ln dd nx unfolding c(3) by blast
qed

lemma port_match_sound:
  "port_match s = Some d \<Longrightarrow>
   \<exists>pre kw seps rest. s = pre @ kw @ seps @ d @ rest \<and> kw \<in> {''port'', ''Port'', ''PORT''} \<and>
           seps \<noteq> [] \<and> (\<forall>c \<in> set seps. is_sep c) \<and> (length d = 4 \<or> length d = 5) \<and>
           (\<forall>c \<in> set d. is_digit c) \<and> (length d = 4 \<longrightarrow> (\<forall>c r. rest = c # r \<longrightarrow> \<not> is_digit c))"
proof (induction s)
  case Nil
  then show ?case by simp
next
  case (Cons c s)
  show ?case
  proof (cases "match_here (c # s)")
    case (Some d')
    then have "d' = d" using Cons.prems by simp
    then obtain kw seps rest where "c # s = [] @ kw @ seps @ d @ rest \<and> kw \<in> {''port'', ''Port'', ''PORT''} \<and>
           seps \<noteq> [] \<and> (\<forall>c \<in> set seps. is_sep c) \<and> (length d = 4 \<or> length d = 5) \<and>
           (\<forall>c \<in> set d. is_digit c) \<and> (length d = 4 \<longrightarrow> (\<forall>c r. rest = c # r \<longrightarrow> \<not> is_digit c))"
      using match_here_sound [of "c # s" d] Some by auto
    then show ?thesis by blast
  next
    case None
    then have "port_match s = Some d" using Cons.prems by simp
    then obtain pre kw seps rest where "s = pre @ kw @ seps @ d @ rest \<and> kw \<in> {''port'', ''Port'', ''PORT''} \<and>
           seps \<noteq> [] \<and> (\<forall>c \<in> set seps. is_sep c) \<and> (length d = 4 \<or> length d = 5) \<and>
           (\<forall>c \<in> set d. is_digit c) \<and> (length d = 4 \<longrightarrow> (\<forall>c r. rest = c # r \<longrightarrow> \<not> is_digit c))"
      using Cons.IH by blast
    then have "c # s = (c # pre) @ kw @ seps @ d @ rest \<and> kw \<in> {''port'', ''Port'', ''PORT''} \<and>
           seps \<noteq> [] \<and> (\<forall>c \<in> set seps. is_sep c) \<and> (length d = 4 \<or> length d = 5) \<and>
           (\<forall>c \<in> set d. is_digit c) \<and> (length d = 4 \<longrightarrow> (\<forall>c r. rest = c # r \<longrightarrow> \<not> is_digit c))"
      by simp
    then show ?thesis by blast
  qed
qed

lemma match_here_complete:
  assumes "kw \<in> {''port'', ''Port'', ''PORT''}" and "seps \<noteq> []" and "\<forall>c \<in> set seps. is_sep c"
    and "4 \<le> length ds" and "\<forall>c \<in> set ds. is_digit c"
  shows "match_here (kw @ seps @ ds @ rest) \<noteq> None"
proof -
  have k: "length kw = 4" using assms(1) by auto
  have t4: "take 4 (kw @ seps @ ds @ rest) = kw" using k by simp
  have d4: "drop 4 (kw @ seps @ ds @ rest) = seps @ ds @ rest" using k by simp
  obtain d0 ds' where ds: "ds = d0 # ds'" using assms(4) by (cases ds) auto
  have nd: "\<not> is_sep d0" using assms(5) ds digit_not_sep by auto
  have tw: "takeWhile is_sep (seps @ ds @ rest) = seps"
    using assms(3) nd ds by (simp add: takeWhile_append2)
  have dw: "dropWhile is_sep (seps @ ds @ rest) = ds @ rest"
    using assms(3) nd ds by (simp add: dropWhile_append2)
  have "length (takeWhile is_digit (ds @ rest)) \<ge> length ds"
    using assms(5) by (simp add: takeWhile_append2)
  then have "4 \<le> length (takeWhile is_digit (ds @ rest))" using assms(4) by simp
  then show ?thesis using assms(1,2) t4 d4 tw dw by (auto simp: match_here_def Let_def)
qed

lemma port_match_append: "match_here s \<noteq> None \<Longrightarrow> port_match (pre @ s) \<noteq> None"
proof (induction pre)
  case Nil
  then show ?case by (cases s) (auto simp: match_here_def)
next
  case (Cons c pre)
  then show ?case by (auto split: option.splits)
qed

lemma port_match_complete:
  assumes "kw \<in> {''port'', ''Port'', ''PORT''}" and "seps \<noteq> []" and "\<forall>c \<in> set seps. is_sep c"
    and "4 \<le> length ds" and "\<forall>c \<in> set ds. is_digit c"
  shows "port_match (pre @ kw @ seps @ ds @ rest) \<noteq> None"
  using match_here_complete [OF assms] by (rule port_match_append)

lemma strip_slashes_spec:
  "(\<exists>n. h = strip_slashes h @ replicate n (CHR ''/'')) \<and>
   (strip_slashes h = [] \<or> last (strip_slashes h) \<noteq> CHR ''/'')"
proof -
  define t where "t = takeWhile (\<lambda>c. c = CHR ''/'') (rev h)"
  have a: "rev h = t @ rev (strip_slashes h)"
    by (simp add: t_def strip_slashes_def)
  have "\<forall>c \<in> set t. c = CHR ''/''" using set_takeWhileD by (fastforce simp: t_def)
  then have r: "t = replicate (length t) (CHR ''/'')" by (simp add: replicate_length_same)
  have "h = strip_slashes h @ rev t" using a by (metis rev_append rev_rev_ident)
  moreover have "rev t = replicate (length t) (CHR ''/'')" using r by (metis rev_replicate)
  ultimately have 1: "\<exists>n. h = strip_slashes h @ replicate n (CHR ''/'')" by metis
  have 2: "strip_slashes h = [] \<or> last (strip_slashes h) \<noteq> CHR ''/''"
  proof (cases "dropWhile (\<lambda>c. c = CHR ''/'') (rev h)")
    case Nil
    then show ?thesis by (simp add: strip_slashes_def)
  next
    case (Cons x xs)
    then have "x \<noteq> CHR ''/''" using hd_dropWhile [of "\<lambda>c. c = CHR ''/''" "rev h"] by auto
    then show ?thesis using Cons by (simp add: strip_slashes_def)
  qed
  show ?thesis using 1 2 by blast
qed

lemma is_local_href_iff:
  "is_local_href h \<longleftrightarrow>
     (\<exists>pre post. h = pre @ ''localhost'' @ post \<or> h = pre @ ''127.0.0.1'' @ post
                \<or> h = pre @ ''0.0.0.0'' @ post)"
  unfolding is_local_href_def str_includes_iff by blast

lemma url_info_local:
  assumes "i < length links" and "is_local_href (links ! i)"
    and "\<forall>j < i. \<not> is_local_href (links ! j)"
  shows "url_info links logs = '' on '' @ strip_slashes (links ! i)"
proof -
  have "find is_local_href links = Some (links ! i)"
    using assms by (auto simp: find_Some_iff)
  then show ?thesis by (simp add: url_info_def)
qed

lemma url_info_first:
  assumes "\<forall>h \<in> set links. \<not> is_local_href h" and "links = h0 # others"
  shows "url_info links logs = '' on '' @ strip_slashes h0"
proof -
  have "find is_local_href links = None" using assms(1) by (simp add: find_None_iff)
  then show ?thesis using assms(2) by (simp add: url_info_def)
qed

lemma url_info_port:
  "url_info [] logs = (case port_match logs of None \<Rightarrow> [] | Some d \<Rightarrow> '' on http://localhost:'' @ d)"
  by (simp add: url_info_def)

lemma start_reports_success:
  assumes "state_file w nm = Some c" and "fst (startPm2Process E c w) = Inr ()"
  shows "\<exists>info. fst (start_managed_process E nm w) = Inr (''Server '' @ quoted nm @ '' started'' @ info)
           \<and> (info = [] \<or> (\<exists>logs. info = url_info (linkify_find E logs) logs))"
proof -
  have l: "lookup (state_file w) nm = Own c" using assms(1) by (simp add: lookup_def)
  obtain r w1 where q: "startPm2Process E c w = (r, w1)" by (cases "startPm2Process E c w")
  then have r: "r = Inr ()" using assms(2) by simp
  define w2 where "w2 = capture_offset E (state_file w) nm (w1\<lparr>ext := wait E 500 (ext w1)\<rparr>)"
  define w3 where "w3 = w2\<lparr>ext := wait E 2000 (ext w2)\<rparr>"
  obtain r4 w4 where g: "runPm2 E (plain (''pm2 logs '' @ nm @ '' --lines 100 --nostream'')) w3 = (r4, w4)"
    by (cases "runPm2 E (plain (''pm2 logs '' @ nm @ '' --lines 100 --nostream'')) w3")
  show ?thesis
  proof (cases r4)
    case (Inl e)
    have "fst (start_managed_process E nm w) = Inr (''Server '' @ quoted nm @ '' started'')"
      unfolding start_managed_process_def Let_def loadState_def l
      using q r g Inl by (simp add: w2_def [symmetric] w3_def [symmetric])
    then show ?thesis by auto
  next
    case (Inr logs)
    have "fst (start_managed_process E nm w)
            = Inr (''Server '' @ quoted nm @ '' started'' @ url_info (linkify_find E logs) logs)"
      unfolding start_managed_process_def Let_def loadState_def l
      using q r g Inr by (simp add: w2_def [symmetric] w3_def [symmetric])
    then show ?thesis by blast
  qed
qed

text \<open>
  Claim C4, as the code has it. Among the links found, the first whose \<^verbatim>\<open>href\<close> contains
  \<^verbatim>\<open>localhost\<close>, \<^verbatim>\<open>127.0.0.1\<close> or \<^verbatim>\<open>0.0.0.0\<close> anywhere (not only as its host) is reported,
  and the first link when none does, with the trailing slashes removed. With no link, the
  text is searched for \<^verbatim>\<open>port\<close>, \<^verbatim>\<open>Port\<close> or \<^verbatim>\<open>PORT\<close> followed by one or more white-space
  characters or colons and at least four digits: such a text always yields an address
  \<^verbatim>\<open>http://localhost:<d>\<close>, and an address reported has for \<^verbatim>\<open>d\<close> the first four or five of
  those digits. With neither, no address is reported. A start of a registered name whose
  supervisor step succeeded reports success, with or without an address.
\<close>

theorem endpoint_discovery:
  "(\<forall>i < length links. is_local_href (links ! i) \<longrightarrow> (\<forall>j < i. \<not> is_local_href (links ! j)) \<longrightarrow>
      url_info links logs = '' on '' @ strip_slashes (links ! i)) \<and>
   ((\<forall>h \<in> set links. \<not> is_local_href h) \<longrightarrow>
      (\<forall>h0 others. links = h0 # others \<longrightarrow> url_info links logs = '' on '' @ strip_slashes h0)) \<and>
   (is_local_href h \<longleftrightarrow>
      (\<exists>pre post. h = pre @ ''localhost'' @ post \<or> h = pre @ ''127.0.0.1'' @ post
                 \<or> h = pre @ ''0.0.0.0'' @ post)) \<and>
   ((\<exists>n. h = strip_slashes h @ replicate n (CHR ''/'')) \<and>
    (strip_slashes h = [] \<or> last (strip_slashes h) \<noteq> CHR ''/'')) \<and>
   (\<forall>pre kw seps ds rest.
      kw \<in> {''port'', ''Port'', ''PORT''} \<longrightarrow> seps \<noteq> [] \<longrightarrow> (\<forall>c \<in> set seps. is_sep c) \<longrightarrow>
      4 \<le> length ds \<longrightarrow> (\<forall>c \<in> set ds. is_digit c) \<longrightarrow>
      (\<exists>d. url_info [] (pre @ kw @ seps @ ds @ rest) = '' on http://localhost:'' @ d)) \<and>
   (\<forall>d. url_info [] logs = '' on http://localhost:'' @ d \<longrightarrow>
      (\<exists>pre kw seps rest. logs = pre @ kw @ seps @ d @ rest \<and> kw \<in> {''port'', ''Port'', ''PORT''} \<and>
         seps \<noteq> [] \<and> (\<forall>c \<in> set seps. is_sep c) \<and> (length d = 4 \<or> length d = 5) \<and>
         (\<forall>c \<in> set d. is_digit c) \<and> (length d = 4 \<longrightarrow> (\<forall>c r. rest = c # r \<longrightarrow> \<not> is_digit c)))) \<and>
   (port_match logs = None \<longrightarrow> url_info [] logs = []) \<and>
   (state_file w nm = Some c \<longrightarrow> fst (startPm2Process E c w) = Inr () \<longrightarrow>
      (\<exists>info. fst (start_managed_process E nm w)
                 = Inr (''Server '' @ quoted nm @ '' started'' @ info) \<and>
              (info = [] \<or> (\<exists>text. info = url_info (linkify_find E text) text))))"
proof (intro conjI)
  show "\<forall>i < length links. is_local_href (links ! i) \<longrightarrow> (\<forall>j < i. \<not> is_local_href (links ! j)) \<longrightarrow>
      url_info links logs = '' on '' @ strip_slashes (links ! i)"
    using url_info_local [of _ links logs] by blast
  show "(\<forall>h \<in> set links. \<not> is_local_href h) \<longrightarrow>
      (\<forall>h0 others. links = h0 # others \<longrightarrow> url_info links logs = '' on '' @ strip_slashes h0)"
    using url_info_first [of links _ _ logs] by blast
  show "is_local_href h \<longleftrightarrow>
      (\<exists>pre post. h = pre @ ''localhost'' @ post \<or> h = pre @ ''127.0.0.1'' @ post
                 \<or> h = pre @ ''0.0.0.0'' @ post)"
    by (rule is_local_href_iff)
  show "\<exists>n. h = strip_slashes h @ replicate n (CHR ''/'')"
    using strip_slashes_spec [of h] by blast
  show "strip_slashes h = [] \<or> last (strip_slashes h) \<noteq> CHR ''/''"
    using strip_slashes_spec [of h] by blast
  show "\<forall>pre kw seps ds rest.
      kw \<in> {''port'', ''Port'', ''PORT''} \<longrightarrow> seps \<noteq> [] \<longrightarrow> (\<forall>c \<in> set seps. is_sep c) \<longrightarrow>
      4 \<le> length ds \<longrightarrow> (\<forall>c \<in> set ds. is_digit c) \<longrightarrow>
      (\<exists>d. url_info [] (pre @ kw @ seps @ ds @ rest) = '' on http://localhost:'' @ d)"
  proof (intro allI impI)
    fix pre kw seps ds rest :: string
    assume "kw \<in> {''port'', ''Port'', ''PORT''}" "seps \<noteq> []" "\<forall>c \<in> set seps. is_sep c"
      "4 \<le> length ds" "\<forall>c \<in> set ds. is_digit c"
    then have "port_match (pre @ kw @ seps @ ds @ rest) \<noteq> None" by (rule port_match_complete)
    then obtain d where "port_match (pre @ kw @ seps @ ds @ rest) = Some d" by blast
    then have "url_info [] (pre @ kw @ seps @ ds @ rest) = '' on http://localhost:'' @ d"
      by (simp add: url_info_port)
    then show "\<exists>d. url_info [] (pre @ kw @ seps @ ds @ rest) = '' on http://localhost:'' @ d" ..
  qed
  show "\<forall>d. url_info [] logs = '' on http://localhost:'' @ d \<longrightarrow>
      (\<exists>pre kw seps rest. logs = pre @ kw @ seps @ d @ rest \<and> kw \<in> {''port'', ''Port'', ''PORT''} \<and>
         seps \<noteq> [] \<and> (\<forall>c \<in> set seps. is_sep c) \<and> (length d = 4 \<or> length d = 5) \<and>
         (\<forall>c \<in> set d. is_digit c) \<and> (length d = 4 \<longrightarrow> (\<forall>c r. rest = c # r \<longrightarrow> \<not> is_digit c)))"
  proof (intro allI impI)
    fix d
    assume a: "url_info [] logs = '' on http://localhost:'' @ d"
    have "port_match logs = Some d"
    proof (cases "port_match logs")
      case None
      then show ?thesis using a by (simp add: url_info_port)
    next
      case (Some d')
      then show ?thesis using a by (simp add: url_info_port)
    qed
    then show "\<exists>pre kw seps rest. logs = pre @ kw @ seps @ d @ rest \<and> kw \<in> {''port'', ''Port'', ''PORT''} \<and>
         seps \<noteq> [] \<and> (\<forall>c \<in> set seps. is_sep c) \<and> (length d = 4 \<or> length d = 5) \<and>
         (\<forall>c \<in> set d. is_digit c) \<and> (length d = 4 \<longrightarrow> (\<forall>c r. rest = c # r \<longrightarrow> \<not> is_digit c))"
      by (rule port_match_sound)
  qed
  show "port_match logs = None \<longrightarrow> url_info [] logs = []" by (simp add: url_info_port)
  show "state_file w nm = Some c \<longrightarrow> fst (startPm2Process E c w) = Inr () \<longrightarrow>
      (\<exists>info. fst (start_managed_process E nm w)
                 = Inr (''Server '' @ quoted nm @ '' started'' @ info) \<and>
              (info = [] \<or> (\<exists>text. info = url_info (linkify_find E text) text)))"
    using start_reports_success [of w nm c E] by blast
qed

text \<open>The claim's wording fails on three inputs: a link whose path, not host, holds
  \<^verbatim>\<open>localhost\<close> is preferred to the first link; a port of two digits is not reported; and
  the label is matched in three spellings only.\<close>

theorem endpoint_discovery_counterexample:
  "url_info [''http://example.com'', ''http://docs.test/localhost''] [] = '' on http://docs.test/localhost'' \<and>
   url_info [] ''Listening on port 80'' = [] \<and>
   url_info [] ''Listening on pOrT 8080'' = []"
  by (simp add: url_info_def is_local_href_def starts_with_def strip_slashes_def match_here_def
      is_sep_def is_digit_def)

theorem endpoint_discovery_witness:
  "url_info [''http://localhost:3002'', ''http://192.168.1.5:3002''] demo_logs
     = '' on http://localhost:3002'' \<and>
   url_info [''http://192.168.1.5:3002/'', ''http://127.0.0.1:3002/''] demo_logs
     = '' on http://127.0.0.1:3002'' \<and>
   url_info [''http://192.168.1.5:3002''] demo_logs = '' on http://192.168.1.5:3002'' \<and>
   url_info [] ''Listening on port 8080'' = '' on http://localhost:8080'' \<and>
   url_info [] ''ready'' = [] \<and>
   fst (start_managed_process demo_env ''web'' (demo_world [''web'' \<mapsto> web_config] [] None))
     = Inr (''Server '' @ quoted ''web'' @ '' started on http://localhost:3002'')"
proof -
  have l: "is_local_href ''http://localhost:3002''" "is_local_href ''http://127.0.0.1:3002/''"
    "\<not> is_local_href ''http://192.168.1.5:3002''" "\<not> is_local_href ''http://192.168.1.5:3002/''"
    by (simp_all add: is_local_href_def starts_with_def)
  have p: "port_match ''Listening on port 8080'' = Some ''8080''" "port_match ''ready'' = None"
    by (simp_all add: match_here_def is_sep_def is_digit_def)
  have s: "state_file (demo_world [''web'' \<mapsto> web_config] [] None) ''web'' = Some web_config"
    "fst (startPm2Process demo_env web_config (demo_world [''web'' \<mapsto> web_config] [] None)) = Inr ()"
    by (simp_all add: demo_simps)
  have f: "fst (start_managed_process demo_env ''web'' (demo_world [''web'' \<mapsto> web_config] [] None))
     = Inr (''Server '' @ quoted ''web'' @ '' started on http://localhost:3002'')"
    by (simp add: demo_simps tool_simps quoted_def demo_logs_def url_info_def is_local_href_def
        starts_with_def strip_slashes_def)
  note T = endpoint_discovery [where links = "[''http://localhost:3002'', ''http://192.168.1.5:3002'']"
      and logs = demo_logs and h = "''http://127.0.0.1:3002/''" and E = demo_env and nm = "''web''"
      and c = web_config and w = "demo_world [''web'' \<mapsto> web_config] [] None"]
  show ?thesis
    using T l p s f
    by (simp add: url_info_def strip_slashes_def)
qed

section \<open>The executed command is one string\<close>









end
